theory Spec2Isabelle
  imports Complex_Main "HOL-Library.Char_ord" "HOL-Library.List_Lexorder" "HOL-Library.Word"
begin

section \<open>Values and errors of the Python program\<close>

text \<open>
  Exceptions are values. \<open>IndexError\<close>, \<open>KeyError\<close> and \<open>ValueError\<close> are the exceptions
  that the algorithms and \<open>cargar\<close> can raise, \<open>RecursionError\<close> the one of a recursion
  that is too deep; \<open>TypeError\<close> and \<open>AttributeError\<close> come from
  the operations of \<open>cargar_desde_json\<close> on a JSON document of the wrong shape;
  \<open>FileNotFoundError\<close>, \<open>JSONDecodeError\<close> and \<open>OtraExcepcion\<close> (any other exception, with
  its text) come from \<open>open\<close> and \<open>json.load\<close>. \<open>ShapeError\<close> is the failure that the
  specification names for a malformed graph; no statement of the source raises it.
  Node indices are Python integers (\<open>int\<close>): a start index may be negative, and numpy
  as well as Python lists then count from the end.
\<close>

datatype py_error =
  IndexError | KeyError | ValueError | ShapeError | TypeError | AttributeError
  | RecursionError | FileNotFoundError | JSONDecodeError | OtraExcepcion string

text \<open>\<open>float('inf')\<close> next to integer distances.\<close>

datatype distancia = Fin int | Infinito

fun menor :: "distancia \<Rightarrow> distancia \<Rightarrow> bool" where
  "menor (Fin a) (Fin b) = (a < b)"
| "menor (Fin a) Infinito = True"
| "menor Infinito _ = False"

text \<open>
  Indexing \<open>xs[i]\<close> of a Python list or of one axis of a numpy array: indices
  \<open>-len \<le> i < len\<close> are accepted, the negative ones count from the end, every other
  index raises IndexError.
\<close>

definition py_get :: "'a list \<Rightarrow> int \<Rightarrow> py_error + 'a" where
  "py_get xs i =
     (if 0 \<le> i \<and> i < int (length xs) then Inr (xs ! nat i)
      else if i < 0 \<and> - int (length xs) \<le> i then Inr (xs ! nat (int (length xs) + i))
      else Inl IndexError)"

definition py_set :: "'a list \<Rightarrow> int \<Rightarrow> 'a \<Rightarrow> py_error + 'a list" where
  "py_set xs i x =
     (if 0 \<le> i \<and> i < int (length xs) then Inr (xs[nat i := x])
      else if i < 0 \<and> - int (length xs) \<le> i then Inr (xs[nat (int (length xs) + i) := x])
      else Inl IndexError)"

text \<open>\<open>range(n)\<close> as the list of its values.\<close>

definition rango :: "nat \<Rightarrow> int list" where
  "rango n = map int [0..<n]"

section \<open>grafo.py: the loaded graph\<close>

text \<open>
  \<open>ga.matriz\<close> is a numpy array of 64-bit signed integers: the dtype that
  \<open>np.array\<close> gives to a list of lists of Python integers which all lie within
  \<open>-2\<^sup>6\<^sup>3 \<le> x < 2\<^sup>6\<^sup>3\<close> (numpy's default integer, 64 bits wide on Linux and macOS and in
  numpy 2 everywhere). Every matrix of config.py is of this kind. A list with a float or
  with an integer outside this range gives an array of another dtype (float64, uint64
  or object), which this development does not describe: a matrix is a list of rows of
  64-bit words, and a cell is read as the signed integer that it holds.
  The sum of two such numbers is again an int64 and wraps around (numpy only warns).
\<close>

type_synonym matriz_t = "64 word list list"

definition suma64 :: "int \<Rightarrow> int \<Rightarrow> int" where
  "suma64 a b = (a + b + 2 ^ 63) mod 2 ^ 64 - 2 ^ 63"

lemma suma64_exacta: "- (2 ^ 63) \<le> a + b \<Longrightarrow> a + b < 2 ^ 63 \<Longrightarrow> suma64 a b = a + b"
  by (simp add: suma64_def)

lemma suma64_int64: "- (2 ^ 63) \<le> suma64 a b \<and> suma64 a b < 2 ^ 63"
proof -
  have "0 \<le> (a + b + 2 ^ 63) mod (2 ^ 64 :: int)" "(a + b + 2 ^ 63) mod (2 ^ 64 :: int) < 2 ^ 64"
    by simp_all
  then show ?thesis
    by (simp add: suma64_def)
qed

text \<open>
  The fields of \<open>GrafoActivo\<close> that the algorithms read. \<open>G\<close> is the edge list handed to
  NetworkX; the spring layout \<open>pos\<close> is floating point and is read by the drawing code
  only, so it is left out.
\<close>

record GrafoActivo =
  matriz :: matriz_t
  nombres :: "string list"
  N :: nat
  G :: "(string \<times> string \<times> int) list"
  nombre_grafo :: string

text \<open>\<open>ga.matriz[u][v]\<close>: first the row, then the column.\<close>

definition celda :: "matriz_t \<Rightarrow> int \<Rightarrow> int \<Rightarrow> py_error + int" where
  "celda m u v =
     (case py_get m u of
        Inl e \<Rightarrow> Inl e
      | Inr fila \<Rightarrow> (case py_get fila v of Inl e \<Rightarrow> Inl e | Inr x \<Rightarrow> Inr (sint x)))"

text \<open>
  The row indices that numpy accepts, and when a read fails or succeeds. A matrix is
  square when every row is as long as the list of rows.
\<close>

definition filas_validas :: "matriz_t \<Rightarrow> int set" where
  "filas_validas m = {- int (length m) ..< int (length m)}"

lemma py_get_Inr_rango: "py_get xs i = Inr x \<Longrightarrow> i \<in> {- int (length xs) ..< int (length xs)}"
  by (auto simp: py_get_def split: if_splits)

lemma celda_Inr_fila: "celda m u v = Inr w \<Longrightarrow> u \<in> filas_validas m"
  by (auto simp: celda_def filas_validas_def split: sum.splits dest: py_get_Inr_rango)

definition cuadrada :: "matriz_t \<Rightarrow> bool" where
  "cuadrada m = (\<forall>fila \<in> set m. length fila = length m)"

lemma py_get_Inl: "py_get xs i = Inl e \<Longrightarrow> e = IndexError"
  by (auto simp: py_get_def split: if_splits)

lemma py_get_ok: "- int (length xs) \<le> i \<Longrightarrow> i < int (length xs) \<Longrightarrow> \<exists>x. py_get xs i = Inr x \<and> x \<in> set xs"
  by (auto simp: py_get_def)

lemma celda_Inl: "celda m u v = Inl e \<Longrightarrow> e = IndexError"
  by (auto simp: celda_def split: sum.splits dest: py_get_Inl)

lemma celda_ok:
  assumes "u \<in> filas_validas m" and "\<forall>fila \<in> set m. int (length m) \<le> int (length fila)"
    and "0 \<le> v" and "v < int (length m)"
  shows "\<exists>w. celda m u v = Inr w"
proof -
  from assms(1) obtain fila where f: "py_get m u = Inr fila" "fila \<in> set m"
    using py_get_ok [of m u] by (auto simp: filas_validas_def)
  with assms have "\<exists>w. py_get fila v = Inr w \<and> w \<in> set fila"
    by (intro py_get_ok) auto
  with f show ?thesis by (auto simp: celda_def)
qed

text \<open>
  \<open>GrafoActivo.cargar\<close>. \<open>np.array(matriz)\<close> raises ValueError on rows of different
  lengths (numpy 1.24 and later); on a rectangular list of lists it builds the array.
  The two nested loops then read the cells above the diagonal and, for each positive
  one, the two labels; each read can raise IndexError. \<open>G\<close> collects the \<open>add_edge\<close>
  calls in order. No other check is made.
\<close>

definition rectangular :: "matriz_t \<Rightarrow> bool" where
  "rectangular m = (\<forall>fila \<in> set m. length fila = length (hd m))"

fun cargar_fila ::
  "matriz_t \<Rightarrow> string list \<Rightarrow> int \<Rightarrow> int list \<Rightarrow> (string \<times> string \<times> int) list
    \<Rightarrow> py_error + (string \<times> string \<times> int) list" where
  "cargar_fila m noms i [] g = Inr g"
| "cargar_fila m noms i (j # js) g =
     (case celda m i j of
        Inl e \<Rightarrow> Inl e
      | Inr w \<Rightarrow>
          if w > 0 then
            (case py_get noms i of
               Inl e \<Rightarrow> Inl e
             | Inr ni \<Rightarrow>
                 (case py_get noms j of
                    Inl e \<Rightarrow> Inl e
                  | Inr nj \<Rightarrow> cargar_fila m noms i js (g @ [(ni, nj, w)])))
          else cargar_fila m noms i js g)"

fun cargar_filas ::
  "matriz_t \<Rightarrow> string list \<Rightarrow> nat \<Rightarrow> int list \<Rightarrow> (string \<times> string \<times> int) list
    \<Rightarrow> py_error + (string \<times> string \<times> int) list" where
  "cargar_filas m noms n [] g = Inr g"
| "cargar_filas m noms n (i # is) g =
     (case cargar_fila m noms i (map int [nat (i + 1)..<n]) g of
        Inl e \<Rightarrow> Inl e
      | Inr g' \<Rightarrow> cargar_filas m noms n is g')"

definition cargar :: "matriz_t \<Rightarrow> string list \<Rightarrow> string \<Rightarrow> py_error + GrafoActivo" where
  "cargar m noms nom =
     (if \<not> rectangular m then Inl ValueError
      else
        (case cargar_filas m noms (length m) (rango (length m)) [] of
           Inl e \<Rightarrow> Inl e
         | Inr g \<Rightarrow>
             Inr \<lparr>matriz = m, nombres = noms, N = length m, G = g,
                  nombre_grafo = nom\<rparr>))"

lemma cargar_fila_Inl: "cargar_fila m noms i js g = Inl e \<Longrightarrow> e = IndexError"
  by (induction js arbitrary: g) (auto split: sum.splits if_splits dest: celda_Inl py_get_Inl)

lemma cargar_filas_Inl: "cargar_filas m noms n is g = Inl e \<Longrightarrow> e = IndexError"
  by (induction "is" arbitrary: g) (auto split: sum.splits dest: cargar_fila_Inl)

lemma cargar_fila_ok:
  assumes "i \<in> filas_validas m" "\<forall>fila \<in> set m. int (length m) \<le> int (length fila)"
    and "\<forall>j \<in> set js. 0 \<le> j \<and> j < int (length m)"
    and "0 \<le> i" "i < int (length m)" "length m \<le> length noms"
  shows "\<exists>g'. cargar_fila m noms i js g = Inr g'"
  using assms(3)
proof (induction js arbitrary: g)
  case Nil
  then show ?case by simp
next
  case (Cons j js)
  then have j: "0 \<le> j" "j < int (length m)" by simp_all
  from celda_ok [OF assms(1,2) j] obtain w where w: "celda m i j = Inr w" ..
  from assms(4-6) obtain ni where ni: "py_get noms i = Inr ni"
    using py_get_ok [of noms i] by auto
  from j assms(6) obtain nj where nj: "py_get noms j = Inr nj"
    using py_get_ok [of noms j] by auto
  from Cons w ni nj show ?case by simp
qed

lemma cargar_filas_ok:
  assumes "\<forall>fila \<in> set m. int (length m) \<le> int (length fila)" "length m \<le> length noms"
    and "\<forall>i \<in> set is. 0 \<le> i \<and> i < int (length m)"
  shows "\<exists>g'. cargar_filas m noms (length m) is g = Inr g'"
  using assms(3)
proof (induction "is" arbitrary: g)
  case Nil
  then show ?case by simp
next
  case (Cons i "is")
  then have i: "0 \<le> i" "i < int (length m)" by simp_all
  then have "i \<in> filas_validas m" by (simp add: filas_validas_def)
  from cargar_fila_ok [OF this assms(1) _ i assms(2), of "map int [nat (i + 1)..<length m]" g]
  obtain g1 where "cargar_fila m noms i (map int [nat (i + 1)..<length m]) g = Inr g1"
    by auto
  with Cons show ?case by simp
qed

lemma cargar_Inr:
  "cargar m noms nom = Inr ga \<Longrightarrow> matriz ga = m \<and> N ga = length m \<and> nombres ga = noms"
  by (auto simp: cargar_def split: if_splits sum.splits)

section \<open>heapq on a list of (priority, node) tuples\<close>

text \<open>
  \<open>heapq.heappop\<close> returns a smallest tuple of the heap in Python's tuple order
  (priority first, then node). Two entries that compare equal are the same value, so
  the result and the remaining entries do not depend on the array layout of the heap:
  the heap is modelled by the list of its entries, \<open>heappush\<close> adds one and
  \<open>heappop\<close> removes a least one.
\<close>

definition tupla_le :: "('p::linorder) \<times> int \<Rightarrow> 'p \<times> int \<Rightarrow> bool" where
  "tupla_le a b = (fst a < fst b \<or> (fst a = fst b \<and> snd a \<le> snd b))"

fun heap_min :: "('p::linorder) \<times> int \<Rightarrow> ('p \<times> int) list \<Rightarrow> 'p \<times> int" where
  "heap_min x [] = x"
| "heap_min x (y # ys) = heap_min (if tupla_le x y then x else y) ys"

definition heappop :: "(('p::linorder) \<times> int) list \<Rightarrow> ('p \<times> int) \<times> ('p \<times> int) list" where
  "heappop pq = (let x = heap_min (hd pq) (tl pq) in (x, remove1 x pq))"

definition heappush :: "(('p::linorder) \<times> int) list \<Rightarrow> 'p \<times> int \<Rightarrow> ('p \<times> int) list" where
  "heappush pq x = pq @ [x]"

section \<open>Steps of the traversal and shortest-path algorithms\<close>

text \<open>
  A step is the dictionary appended to \<open>pasos\<close>. The parent dictionary maps a node to its
  parent, or to \<open>None\<close> for the root: \<open>padre v = Some None\<close> is the root entry,
  \<open>padre v = None\<close> an absent key. The keys \<open>'padre'\<close>, \<open>'dist'\<close> and \<open>'g'\<close> carry the
  suffix \<open>_paso\<close>, since the local variables of the same names keep theirs.
\<close>

type_synonym padre_t = "int \<rightharpoonup> int option"

record paso =
  actual :: int
  visitados :: "int set"
  padre_paso :: padre_t

record paso_dijkstra = paso +
  dist_paso :: "distancia list"

text \<open>
  The path reconstruction shared by Dijkstra, A* and Bellman-Ford:
  \<^verbatim>\<open>while n is not None and n in padre: camino.append(n); n = padre[n]\<close>.
  On a cyclic parent dictionary the loop does not end, so the result is optional.
\<close>

partial_function (option) reconstruir :: "padre_t \<Rightarrow> int option \<Rightarrow> int list \<Rightarrow> int list option" where
  "reconstruir p n camino =
     (case n of
        None \<Rightarrow> Some camino
      | Some k \<Rightarrow>
          (case p k of
             None \<Rightarrow> Some camino
           | Some n' \<Rightarrow> reconstruir p n' (camino @ [k])))"

declare reconstruir.simps [code]

section \<open>algorithms/dijkstra.py\<close>

text \<open>
  The body of \<open>for v in range(ga.N)\<close>, on the remaining values of \<open>v\<close>. The local
  variable \<open>dist\<close> of the source is written \<open>dists\<close> throughout, since \<open>dist\<close> is a constant
  of the library.
\<close>

fun dijkstra_relajar ::
  "matriz_t \<Rightarrow> int \<Rightarrow> int \<Rightarrow> int list \<Rightarrow> distancia list \<times> padre_t \<times> (int \<times> int) list
    \<Rightarrow> py_error + distancia list \<times> padre_t \<times> (int \<times> int) list" where
  "dijkstra_relajar m costo u [] st = Inr st"
| "dijkstra_relajar m costo u (v # vs) (dists, padre, pq) =
     (case celda m u v of
        Inl e \<Rightarrow> Inl e
      | Inr w \<Rightarrow>
          if w > 0 then
            (let nuevo = suma64 costo w in
             case py_get dists v of
               Inl e \<Rightarrow> Inl e
             | Inr dv \<Rightarrow>
                 if menor (Fin nuevo) dv then
                   (case py_set dists v (Fin nuevo) of
                      Inl e \<Rightarrow> Inl e
                    | Inr dist' \<Rightarrow>
                        dijkstra_relajar m costo u vs
                          (dist', padre(v \<mapsto> Some u), heappush pq (nuevo, v)))
                 else dijkstra_relajar m costo u vs (dists, padre, pq))
          else dijkstra_relajar m costo u vs (dists, padre, pq))"


text \<open>
  Facts for the termination of the main loop: a pop shortens the heap, and a relaxation
  that read a cell of row \<open>u\<close> without IndexError had \<open>u\<close> within the rows.
\<close>

lemma heap_min_in: "heap_min x ys \<in> set (x # ys)"
  by (induction ys arbitrary: x) auto

lemma heappop_length:
  assumes "pq \<noteq> []" and "(x, pq1) = heappop pq"
  shows "length pq1 < length pq"
proof -
  have "heap_min (hd pq) (tl pq) \<in> set (hd pq # tl pq)"
    by (rule heap_min_in)
  with assms(1) have "heap_min (hd pq) (tl pq) \<in> set pq"
    by simp
  with assms show ?thesis
    by (simp add: heappop_def Let_def length_remove1)
qed

lemma dijkstra_relajar_fila:
  "dijkstra_relajar m costo u (v # vs) st = Inr st' \<Longrightarrow> u \<in> filas_validas m"
  by (cases st) (auto split: sum.splits dest: celda_Inr_fila)

function dijkstra_bucle ::
  "GrafoActivo \<Rightarrow> int \<Rightarrow> distancia list \<Rightarrow> padre_t \<Rightarrow> (int \<times> int) list
    \<Rightarrow> paso_dijkstra list \<Rightarrow> int set
    \<Rightarrow> py_error \<times> paso_dijkstra list + paso_dijkstra list \<times> padre_t \<times> distancia list" where
  "dijkstra_bucle ga objetivo dists padre pq pasos visitado =
     (if pq = [] then Inr (pasos, padre, dists)
      else
        (case heappop pq of
           ((costo, u), pq1) \<Rightarrow>
             if u \<in> visitado then dijkstra_bucle ga objetivo dists padre pq1 pasos visitado
             else
               (let visitado1 = insert u visitado;
                    pasos1 = pasos @ [\<lparr>actual = u, visitados = visitado1,
                                        padre_paso = padre, dist_paso = dists\<rparr>]
                in if u = objetivo then Inr (pasos1, padre, dists)
                   else
                     (case dijkstra_relajar (matriz ga) costo u (rango (N ga)) (dists, padre, pq1) of
                        Inl e \<Rightarrow> Inl (e, pasos1)
                      | Inr (dist2, padre2, pq2) \<Rightarrow>
                          dijkstra_bucle ga objetivo dist2 padre2 pq2 pasos1 visitado1))))"
  by pat_completeness auto
termination
proof (relation "inv_image (less_than <*lex*> less_than)
    (\<lambda>(ga, objetivo, dists, padre, pq, pasos, visitado).
       (card (filas_validas (matriz ga) - visitado), length pq))", goal_cases)
  case 1
  show ?case by (intro wf_inv_image wf_lex_prod wf_less_than)
next
  case (2 ga objetivo dists padre pq pasos visitado x pq1 costo u)
  then show ?case
    using heappop_length [of pq "(costo, u)" pq1] by simp
next
  case (3 ga objetivo dists padre pq pasos visitado x pq1 costo u visitado1 pasos1 st dist2 x2 padre2 pq2)
  have fin: "finite (filas_validas (matriz ga))"
    by (simp add: filas_validas_def)
  show ?case
  proof (cases "N ga")
    case 0
    with 3 have "pq2 = pq1"
      by (auto simp: rango_def)
    moreover have "length pq1 < length pq"
      using 3 heappop_length [of pq "(costo, u)" pq1] by simp
    moreover have "card (filas_validas (matriz ga) - visitado1)
        \<le> card (filas_validas (matriz ga) - visitado)"
      using 3 fin by (auto intro!: card_mono)
    ultimately show ?thesis
      using 3 by auto
  next
    case (Suc n)
    then have "rango (N ga) = 0 # map int [1..<Suc n]"
      by (simp add: rango_def upt_rec)
    with 3 have "u \<in> filas_validas (matriz ga)"
      using dijkstra_relajar_fila by metis
    moreover have "u \<notin> visitado" "visitado1 = insert u visitado"
      using 3 by simp_all
    ultimately have "filas_validas (matriz ga) - visitado1
        \<subset> filas_validas (matriz ga) - visitado"
      by auto
    with fin have "card (filas_validas (matriz ga) - visitado1)
        < card (filas_validas (matriz ga) - visitado)"
      by (intro psubset_card_mono) auto
    then show ?thesis
      using 3 by simp
  qed
qed

declare dijkstra_bucle.simps [simp del]

definition dijkstra_pasos ::
  "GrafoActivo \<Rightarrow> int \<Rightarrow> int
    \<Rightarrow> (py_error \<times> paso_dijkstra list + paso_dijkstra list \<times> int list \<times> distancia list)
         option" where
  "dijkstra_pasos ga inicio objetivo =
     (case py_set (replicate (N ga) Infinito) inicio (Fin 0) of
        Inl e \<Rightarrow> Some (Inl (e, []))
      | Inr dists \<Rightarrow>
          (case dijkstra_bucle ga objetivo dists [inicio \<mapsto> None] [(0, inicio)] [] {} of
             Inl e \<Rightarrow> Some (Inl e)
           | Inr (pasos, padre, dist') \<Rightarrow>
               (case reconstruir padre (Some objetivo) [] of
                  None \<Rightarrow> None
                | Some camino \<Rightarrow> Some (Inr (pasos, rev camino, dist')))))"

section \<open>algorithms/bfs.py\<close>

text \<open>
  The loop \<^verbatim>\<open>for v in range(ga.N)\<close> of one dequeued node: a neighbour that is not yet
  visited is appended to the queue, and gets \<open>u\<close> as parent only if it has no entry in
  \<open>padre\<close> yet.
\<close>

fun bfs_vecinos ::
  "matriz_t \<Rightarrow> int \<Rightarrow> int list \<Rightarrow> int set \<Rightarrow> padre_t \<times> int list
    \<Rightarrow> py_error + padre_t \<times> int list" where
  "bfs_vecinos m u [] visitado st = Inr st"
| "bfs_vecinos m u (v # vs) visitado (padre, cola) =
     (case celda m u v of
        Inl e \<Rightarrow> Inl e
      | Inr w \<Rightarrow>
          if w > 0 \<and> v \<notin> visitado then
            bfs_vecinos m u vs visitado
              (if padre v = None then padre(v \<mapsto> Some u) else padre, cola @ [v])
          else bfs_vecinos m u vs visitado (padre, cola))"

lemma bfs_vecinos_fila:
  "bfs_vecinos m u (v # vs) visitado st = Inr st' \<Longrightarrow> u \<in> filas_validas m"
  by (cases st) (auto split: sum.splits dest: celda_Inr_fila)

function bfs_bucle ::
  "GrafoActivo \<Rightarrow> int set \<Rightarrow> int list \<Rightarrow> padre_t \<Rightarrow> paso list
    \<Rightarrow> py_error \<times> paso list + paso list" where
  "bfs_bucle ga visitado cola padre pasos =
     (case cola of
        [] \<Rightarrow> Inr pasos
      | u # cola1 \<Rightarrow>
          if u \<notin> visitado then
            (let visitado1 = insert u visitado;
                 pasos1 = pasos @ [\<lparr>actual = u, visitados = visitado1, padre_paso = padre\<rparr>]
             in case bfs_vecinos (matriz ga) u (rango (N ga)) visitado1 (padre, cola1) of
                  Inl e \<Rightarrow> Inl (e, pasos1)
                | Inr (padre2, cola2) \<Rightarrow> bfs_bucle ga visitado1 cola2 padre2 pasos1)
          else bfs_bucle ga visitado cola1 padre pasos)"
  by pat_completeness auto
termination
proof (relation "inv_image (less_than <*lex*> less_than)
    (\<lambda>(ga, visitado, cola, padre, pasos).
       (card (filas_validas (matriz ga) - visitado), length cola))", goal_cases)
  case 1
  show ?case by (intro wf_inv_image wf_lex_prod wf_less_than)
next
  case (2 ga visitado cola padre pasos u cola1 visitado1 pasos1 st padre2 cola2)
  have fin: "finite (filas_validas (matriz ga))"
    by (simp add: filas_validas_def)
  show ?case
  proof (cases "N ga")
    case 0
    with 2 have "cola2 = cola1"
      by (auto simp: rango_def)
    moreover have "card (filas_validas (matriz ga) - visitado1)
        \<le> card (filas_validas (matriz ga) - visitado)"
      using 2 fin by (auto intro!: card_mono)
    ultimately show ?thesis
      using 2 by auto
  next
    case (Suc n)
    then have "rango (N ga) = 0 # map int [1..<Suc n]"
      by (simp add: rango_def upt_rec)
    with 2 have "u \<in> filas_validas (matriz ga)"
      using bfs_vecinos_fila by metis
    moreover have "u \<notin> visitado" "visitado1 = insert u visitado"
      using 2 by simp_all
    ultimately have "filas_validas (matriz ga) - visitado1
        \<subset> filas_validas (matriz ga) - visitado"
      by auto
    with fin have "card (filas_validas (matriz ga) - visitado1)
        < card (filas_validas (matriz ga) - visitado)"
      by (intro psubset_card_mono) auto
    then show ?thesis
      using 2 by simp
  qed
next
  case (3 ga visitado cola padre pasos u cola1)
  then show ?case by simp
qed

declare bfs_bucle.simps [simp del]

definition bfs_pasos :: "GrafoActivo \<Rightarrow> int \<Rightarrow> py_error \<times> paso list + paso list" where
  "bfs_pasos ga inicio = bfs_bucle ga {} [inicio] [inicio \<mapsto> None] []"

text \<open>
  On a matrix whose rows are at least as long as the list of rows, the loop raises
  nothing as long as the queue holds valid row indices; and it only appends to \<open>pasos\<close>.
\<close>

lemma bfs_vecinos_ok:
  assumes "u \<in> filas_validas m" "\<forall>fila \<in> set m. int (length m) \<le> int (length fila)"
    and "\<forall>v \<in> set vs. 0 \<le> v \<and> v < int (length m)"
  shows "\<exists>padre2 cola2. bfs_vecinos m u vs visitado (padre, cola) = Inr (padre2, cola2)
           \<and> set cola2 \<subseteq> set cola \<union> set vs"
  using assms(3)
proof (induction vs arbitrary: padre cola)
  case Nil
  then show ?case by simp
next
  case (Cons v vs)
  then have v: "0 \<le> v" "v < int (length m)" by simp_all
  from celda_ok [OF assms(1,2) v] obtain w where w: "celda m u v = Inr w" ..
  show ?case
  proof (cases "w > 0 \<and> v \<notin> visitado")
    case True
    from Cons.prems have "\<forall>v \<in> set vs. 0 \<le> v \<and> v < int (length m)" by simp
    from Cons.IH [OF this, of "if padre v = None then padre(v \<mapsto> Some u) else padre" "cola @ [v]"]
    show ?thesis using w True by auto
  next
    case False
    from Cons.prems have "\<forall>v \<in> set vs. 0 \<le> v \<and> v < int (length m)" by simp
    from Cons.IH [OF this, of padre cola]
    show ?thesis using w False by auto
  qed
qed

lemma bfs_bucle_prefijo:
  "bfs_bucle ga visitado cola padre pasos = Inr r \<Longrightarrow> \<exists>ext. r = pasos @ ext"
proof (induction ga visitado cola padre pasos rule: bfs_bucle.induct)
  case (1 ga visitado cola padre pasos)
  show ?case
  proof (cases cola)
    case Nil
    with "1.prems" show ?thesis by (subst (asm) bfs_bucle.simps) simp
  next
    case (Cons u cola1)
    show ?thesis
    proof (cases "u \<in> visitado")
      case True
      with Cons "1.prems" have "bfs_bucle ga visitado cola1 padre pasos = Inr r"
        by (subst (asm) bfs_bucle.simps) simp
      from "1.IH"(2) [OF Cons _ this] True show ?thesis by simp
    next
      case False
      let ?v1 = "insert u visitado"
      let ?p1 = "pasos @ [\<lparr>actual = u, visitados = ?v1, padre_paso = padre\<rparr>]"
      from Cons False "1.prems" obtain padre2 cola2 where
        a: "bfs_vecinos (matriz ga) u (rango (N ga)) ?v1 (padre, cola1) = Inr (padre2, cola2)" and
        b: "bfs_bucle ga ?v1 cola2 padre2 ?p1 = Inr r"
        by (subst (asm) bfs_bucle.simps) (auto simp: Let_def split: sum.splits)
      from "1.IH"(1) [OF Cons False refl refl a refl b] show ?thesis by auto
    qed
  qed
qed

lemma bfs_bucle_ok:
  "\<forall>fila \<in> set (matriz ga). int (length (matriz ga)) \<le> int (length fila)
    \<Longrightarrow> N ga = length (matriz ga) \<Longrightarrow> set cola \<subseteq> filas_validas (matriz ga)
    \<Longrightarrow> \<exists>r. bfs_bucle ga visitado cola padre pasos = Inr r"
proof (induction ga visitado cola padre pasos rule: bfs_bucle.induct)
  case (1 ga visitado cola padre pasos)
  show ?case
  proof (cases cola)
    case Nil
    then show ?thesis by (subst bfs_bucle.simps) simp
  next
    case (Cons u cola1)
    with "1.prems" have u: "u \<in> filas_validas (matriz ga)"
      and c1: "set cola1 \<subseteq> filas_validas (matriz ga)" by auto
    show ?thesis
    proof (cases "u \<in> visitado")
      case True
      from "1.IH"(2) [OF Cons _ "1.prems"(1,2) c1] True Cons show ?thesis
        by (subst bfs_bucle.simps) simp
    next
      case False
      let ?v1 = "insert u visitado"
      let ?p1 = "pasos @ [\<lparr>actual = u, visitados = ?v1, padre_paso = padre\<rparr>]"
      have "\<forall>v \<in> set (rango (N ga)). 0 \<le> v \<and> v < int (length (matriz ga))"
        using "1.prems"(2) by (auto simp: rango_def)
      from bfs_vecinos_ok [OF u "1.prems"(1) this, of ?v1 padre cola1]
      obtain padre2 cola2 where
        a: "bfs_vecinos (matriz ga) u (rango (N ga)) ?v1 (padre, cola1) = Inr (padre2, cola2)" and
        b: "set cola2 \<subseteq> set cola1 \<union> set (rango (N ga))"
        by blast
      have "set (rango (N ga)) \<subseteq> filas_validas (matriz ga)"
        using "1.prems"(2) by (auto simp: rango_def filas_validas_def)
      with b c1 have c2: "set cola2 \<subseteq> filas_validas (matriz ga)" by blast
      from "1.IH"(1) [OF Cons False refl refl a refl "1.prems"(1,2) c2]
      obtain r where "bfs_bucle ga ?v1 cola2 padre2 ?p1 = Inr r" ..
      with Cons False a show ?thesis by (subst bfs_bucle.simps) (simp add: Let_def)
    qed
  qed
qed

section \<open>algorithms/dfs.py\<close>

text \<open>
  The recursive \<open>_dfs\<close> and its loop over the neighbours, which calls \<open>_dfs\<close> again and
  goes on with the sets that the call has changed. The closure variables \<open>visitado\<close>,
  \<open>padre\<close> and \<open>pasos\<close> are passed as a state.

  Python bounds the depth of the recursion: a call of \<open>_dfs\<close> that would exceed the
  recursion limit raises RecursionError instead of running its body. How many nested
  calls of \<open>_dfs\<close> are left depends on the limit and on the frames of the caller, so it
  is an argument: \<open>marcos\<close> is the number of nested calls that the interpreter still
  allows. An exception comes with the steps that \<open>pasos\<close> held when it was raised; the
  caller receives the exception only.
\<close>

type_synonym estado_dfs = "int set \<times> padre_t \<times> paso list"

fun dfs_visita :: "GrafoActivo \<Rightarrow> nat \<Rightarrow> int \<Rightarrow> estado_dfs \<Rightarrow> py_error \<times> paso list + estado_dfs"
  and dfs_vecinos ::
    "GrafoActivo \<Rightarrow> nat \<Rightarrow> int \<Rightarrow> int list \<Rightarrow> estado_dfs \<Rightarrow> py_error \<times> paso list + estado_dfs" where
  "dfs_visita ga 0 u (visitado, padre, pasos) = Inl (RecursionError, pasos)"
| "dfs_visita ga (Suc marcos) u (visitado, padre, pasos) =
     (let visitado1 = insert u visitado;
          pasos1 = pasos @ [\<lparr>actual = u, visitados = visitado1, padre_paso = padre\<rparr>]
      in dfs_vecinos ga marcos u (rango (N ga)) (visitado1, padre, pasos1))"
| "dfs_vecinos ga marcos u [] st = Inr st"
| "dfs_vecinos ga marcos u (v # vs) (visitado, padre, pasos) =
     (case celda (matriz ga) u v of
        Inl e \<Rightarrow> Inl (e, pasos)
      | Inr w \<Rightarrow>
          if w > 0 \<and> v \<notin> visitado then
            (case dfs_visita ga marcos v (visitado, padre(v \<mapsto> Some u), pasos) of
               Inl e \<Rightarrow> Inl e
             | Inr st1 \<Rightarrow> dfs_vecinos ga marcos u vs st1)
          else dfs_vecinos ga marcos u vs (visitado, padre, pasos))"

definition dfs_pasos :: "GrafoActivo \<Rightarrow> nat \<Rightarrow> int \<Rightarrow> py_error \<times> paso list + paso list" where
  "dfs_pasos ga marcos inicio =
     (case dfs_visita ga marcos inicio ({}, [inicio \<mapsto> None], []) of
        Inl e \<Rightarrow> Inl e
      | Inr (visitado, padre, pasos) \<Rightarrow> Inr pasos)"

lemma py_get_Inr_set: "py_get xs i = Inr x \<Longrightarrow> x \<in> set xs"
  by (auto simp: py_get_def split: if_splits)

section \<open>algorithms/kruskal.py\<close>

record paso_mst =
  mst_paso :: "(int \<times> int) list"

record paso_kruskal = paso_mst +
  edge :: "int \<times> int"
  w_paso :: int
  ok :: bool

text \<open>
  The comprehension that lists the edges above the diagonal:
  \<^verbatim>\<open>for i in range(ga.N) for j in range(i + 1, ga.N) if ga.matriz[i][j] > 0\<close>.
\<close>

fun aristas_fila :: "matriz_t \<Rightarrow> int \<Rightarrow> int list \<Rightarrow> py_error + (int \<times> int \<times> int) list" where
  "aristas_fila m i [] = Inr []"
| "aristas_fila m i (j # js) =
     (case celda m i j of
        Inl e \<Rightarrow> Inl e
      | Inr w \<Rightarrow>
          (case aristas_fila m i js of
             Inl e \<Rightarrow> Inl e
           | Inr r \<Rightarrow> Inr (if w > 0 then (i, j, w) # r else r)))"

fun aristas_superiores :: "matriz_t \<Rightarrow> nat \<Rightarrow> int list \<Rightarrow> py_error + (int \<times> int \<times> int) list" where
  "aristas_superiores m n [] = Inr []"
| "aristas_superiores m n (i # is) =
     (case aristas_fila m i (map int [nat (i + 1)..<n]) of
        Inl e \<Rightarrow> Inl e
      | Inr r \<Rightarrow>
          (case aristas_superiores m n is of
             Inl e \<Rightarrow> Inl e
           | Inr rs \<Rightarrow> Inr (r @ rs)))"

text \<open>
  \<open>find\<close> with path compression, on the list \<open>padre_uf\<close> that it mutates: the result is
  the root together with the updated list. The recursion follows the parent
  pointers, so on a cyclic list it does not end: the result is optional.
\<close>

partial_function (option) find_uf :: "int list \<Rightarrow> int \<Rightarrow> (py_error + int \<times> int list) option" where
  "find_uf padre_uf x =
     (case py_get padre_uf x of
        Inl e \<Rightarrow> Some (Inl e)
      | Inr px \<Rightarrow>
          if px \<noteq> x then
            Option.bind (find_uf padre_uf px)
              (\<lambda>r. case r of
                 Inl e \<Rightarrow> Some (Inl e)
               | Inr (raiz, padre_uf1) \<Rightarrow>
                   (case py_set padre_uf1 x raiz of
                      Inl e \<Rightarrow> Some (Inl e)
                    | Inr padre_uf2 \<Rightarrow>
                        (case py_get padre_uf2 x of
                           Inl e \<Rightarrow> Some (Inl e)
                         | Inr r \<Rightarrow> Some (Inr (r, padre_uf2)))))
          else Some (Inr (px, padre_uf)))"

declare find_uf.simps [code]

fun kruskal_bucle ::
  "(int \<times> int \<times> int) list \<Rightarrow> int list \<Rightarrow> (int \<times> int) list \<Rightarrow> paso_kruskal list
    \<Rightarrow> (py_error + paso_kruskal list) option" where
  "kruskal_bucle [] padre_uf mst pasos = Some (Inr pasos)"
| "kruskal_bucle ((u, v, w) # resto) padre_uf mst pasos =
     (case find_uf padre_uf u of
        None \<Rightarrow> None
      | Some (Inl e) \<Rightarrow> Some (Inl e)
      | Some (Inr (ru, padre_uf1)) \<Rightarrow>
          (case find_uf padre_uf1 v of
             None \<Rightarrow> None
           | Some (Inl e) \<Rightarrow> Some (Inl e)
           | Some (Inr (rv, padre_uf2)) \<Rightarrow>
               (let aceptada = (ru \<noteq> rv) in
                if aceptada then
                  (case py_set padre_uf2 ru rv of
                     Inl e \<Rightarrow> Some (Inl e)
                   | Inr padre_uf3 \<Rightarrow>
                       (let mst1 = mst @ [(u, v)] in
                        kruskal_bucle resto padre_uf3 mst1
                          (pasos @ [\<lparr>mst_paso = mst1, edge = (u, v), w_paso = w,
                                      ok = aceptada\<rparr>])))
                else
                  kruskal_bucle resto padre_uf2 mst
                    (pasos @ [\<lparr>mst_paso = mst, edge = (u, v), w_paso = w,
                                ok = aceptada\<rparr>]))))"

text \<open>\<open>sorted(..., key=lambda x: x[2])\<close> is a stable sort by weight, as \<open>sort_key\<close> is.\<close>

definition kruskal_pasos :: "GrafoActivo \<Rightarrow> (py_error + paso_kruskal list) option" where
  "kruskal_pasos ga =
     (case aristas_superiores (matriz ga) (N ga) (rango (N ga)) of
        Inl e \<Rightarrow> Some (Inl e)
      | Inr sin_orden \<Rightarrow>
          (let aristas = sort_key (\<lambda>x. snd (snd x)) sin_orden
           in kruskal_bucle aristas (rango (N ga)) [] []))"

section \<open>algorithms/prim.py\<close>

record paso_prim = paso_mst +
  actual_prim :: int
  visitados_prim :: "int list"

text \<open>\<open>matriz_a_lista_ady\<close> of grafo.py: per row, the pairs (column, weight) of the nonzero cells.\<close>

fun lista_ady_fila :: "matriz_t \<Rightarrow> int \<Rightarrow> int list \<Rightarrow> py_error + (int \<times> int) list" where
  "lista_ady_fila m i [] = Inr []"
| "lista_ady_fila m i (j # js) =
     (case celda m i j of
        Inl e \<Rightarrow> Inl e
      | Inr w \<Rightarrow>
          (case lista_ady_fila m i js of
             Inl e \<Rightarrow> Inl e
           | Inr r \<Rightarrow> Inr (if w \<noteq> 0 then (j, w) # r else r)))"

fun lista_ady_filas :: "matriz_t \<Rightarrow> int list \<Rightarrow> py_error + (int \<times> int) list list" where
  "lista_ady_filas m [] = Inr []"
| "lista_ady_filas m (i # is) =
     (case lista_ady_fila m i (rango (length m)) of
        Inl e \<Rightarrow> Inl e
      | Inr r \<Rightarrow>
          (case lista_ady_filas m is of
             Inl e \<Rightarrow> Inl e
           | Inr rs \<Rightarrow> Inr (r # rs)))"

definition matriz_a_lista_ady :: "matriz_t \<Rightarrow> py_error + (int \<times> int) list list" where
  "matriz_a_lista_ady m = lista_ady_filas m (rango (length m))"

text \<open>The snapshot \<^verbatim>\<open>[i for i in range(ga.N) if visitado[i]]\<close>.\<close>

fun indices_visitados :: "bool list \<Rightarrow> int list \<Rightarrow> py_error + int list" where
  "indices_visitados visitado [] = Inr []"
| "indices_visitados visitado (i # is) =
     (case py_get visitado i of
        Inl e \<Rightarrow> Inl e
      | Inr b \<Rightarrow>
          (case indices_visitados visitado is of
             Inl e \<Rightarrow> Inl e
           | Inr r \<Rightarrow> Inr (if b then i # r else r)))"

text \<open>The loop \<^verbatim>\<open>for v, w in lista[u]\<close>: the parent is overwritten at every push.\<close>

fun prim_vecinos ::
  "int \<Rightarrow> (int \<times> int) list \<Rightarrow> bool list \<Rightarrow> int list \<times> (int \<times> int) list
    \<Rightarrow> py_error + int list \<times> (int \<times> int) list" where
  "prim_vecinos u [] visitado st = Inr st"
| "prim_vecinos u ((v, w) # resto) visitado (padre, heap) =
     (case py_get visitado v of
        Inl e \<Rightarrow> Inl e
      | Inr b \<Rightarrow>
          if \<not> b then
            (case py_set padre v u of
               Inl e \<Rightarrow> Inl e
             | Inr padre1 \<Rightarrow> prim_vecinos u resto visitado (padre1, heappush heap (w, v)))
          else prim_vecinos u resto visitado (padre, heap))"

definition pendientes :: "bool list \<Rightarrow> nat" where
  "pendientes visitado = length (filter (\<lambda>b. \<not> b) visitado)"

lemma pendientes_marcar:
  assumes "py_get visitado u = Inr False" and "py_set visitado u True = Inr visitado1"
  shows "pendientes visitado1 < pendientes visitado"
proof -
  have dec: "length (filter (\<lambda>b. \<not> b) (xs[k := True])) < length (filter (\<lambda>b. \<not> b) xs)"
    if "k < length xs" and "\<not> xs ! k" for xs :: "bool list" and k
    using that
  proof (induction xs arbitrary: k)
    case Nil
    then show ?case by simp
  next
    case (Cons x xs)
    then show ?case by (cases k) auto
  qed
  from assms show ?thesis
    unfolding pendientes_def py_get_def py_set_def
    by (auto split: if_splits intro!: dec)
qed

lemma prim_vecinos_visitado_heap:
  "prim_vecinos u vecinos visitado (padre, heap) = Inr (padre2, heap2)
    \<Longrightarrow> length padre2 = length padre"
  by (induction vecinos arbitrary: padre heap)
     (auto simp: py_set_def split: sum.splits if_splits)

function prim_bucle ::
  "GrafoActivo \<Rightarrow> (int \<times> int) list list \<Rightarrow> bool list \<Rightarrow> (int \<times> int) list
    \<Rightarrow> (int \<times> int) list \<Rightarrow> int list \<Rightarrow> paso_prim list \<Rightarrow> py_error + paso_prim list" where
  "prim_bucle ga lista visitado heap mst padre pasos =
     (if heap = [] then Inr pasos
      else
        (case heappop heap of
           ((peso, u), heap1) \<Rightarrow>
             (case py_get visitado u of
                Inl e \<Rightarrow> Inl e
              | Inr ya \<Rightarrow>
                  if ya then prim_bucle ga lista visitado heap1 mst padre pasos
                  else
                    (case py_set visitado u True of
                       Inl e \<Rightarrow> Inl e
                     | Inr visitado1 \<Rightarrow>
                         (case py_get padre u of
                            Inl e \<Rightarrow> Inl e
                          | Inr pu \<Rightarrow>
                              (let mst1 = (if pu \<noteq> - 1 then mst @ [(pu, u)] else mst) in
                               case indices_visitados visitado1 (rango (N ga)) of
                                 Inl e \<Rightarrow> Inl e
                               | Inr vis \<Rightarrow>
                                   (let pasos1 = pasos @ [\<lparr>mst_paso = mst1, actual_prim = u,
                                                            visitados_prim = vis\<rparr>] in
                                    case py_get lista u of
                                      Inl e \<Rightarrow> Inl e
                                    | Inr vecinos \<Rightarrow>
                                        (case prim_vecinos u vecinos visitado1 (padre, heap1) of
                                           Inl e \<Rightarrow> Inl e
                                         | Inr (padre2, heap2) \<Rightarrow>
                                             prim_bucle ga lista visitado1 heap2 mst1 padre2
                                               pasos1))))))))"
  by pat_completeness auto
termination
proof (relation "inv_image (less_than <*lex*> less_than)
    (\<lambda>(ga, lista, visitado, heap, mst, padre, pasos). (pendientes visitado, length heap))",
    goal_cases)
  case 1
  show ?case by (intro wf_inv_image wf_lex_prod wf_less_than)
next
  case (2 ga lista visitado heap mst padre pasos x heap1 peso u ya)
  then show ?case
    using heappop_length [of heap "(peso, u)" heap1] by simp
next
  case (3 ga lista visitado heap mst padre pasos x heap1 peso u ya visitado1)
  then have "pendientes visitado1 < pendientes visitado"
    using pendientes_marcar [of visitado u visitado1] by simp
  then show ?case by simp
qed

declare prim_bucle.simps [simp del]

definition prim_pasos :: "GrafoActivo \<Rightarrow> py_error + paso_prim list" where
  "prim_pasos ga =
     (case matriz_a_lista_ady (matriz ga) of
        Inl e \<Rightarrow> Inl e
      | Inr lista \<Rightarrow>
          prim_bucle ga lista (replicate (N ga) False) [(0, 0)] []
            (replicate (N ga) (- 1)) [])"

section \<open>algorithms/bellman_ford.py\<close>

text \<open>
  A step of Bellman-Ford. The keys that only a relaxation step has are optional. The
  keys \<open>'dist'\<close>, \<open>'padre'\<close>, \<open>'peso'\<close> and \<open>'dist_anterior'\<close> carry the suffix \<open>_bf\<close>.
  \<open>matriz_a_aristas\<close> of grafo.py lists both directions of every nonzero cell.
  \<open>dist[u] + peso\<close> adds two 64-bit integers and wraps around. An exception comes with
  the steps that \<open>pasos\<close> held when it was raised; the caller receives the exception
  only.
\<close>

record paso_bf =
  iter :: int
  dist_bf :: "distancia list"
  padre_bf :: padre_t
  cambio :: bool
  arista_evaluada :: "(int \<times> int) option"
  peso_bf :: "int option"
  dist_anterior_bf :: "distancia option"
  dist_nueva :: "distancia option"
  tipo :: string

fun aristas_de_fila :: "matriz_t \<Rightarrow> int \<Rightarrow> int list \<Rightarrow> py_error + (int \<times> int \<times> int) list" where
  "aristas_de_fila m i [] = Inr []"
| "aristas_de_fila m i (j # js) =
     (case celda m i j of
        Inl e \<Rightarrow> Inl e
      | Inr w \<Rightarrow>
          (case aristas_de_fila m i js of
             Inl e \<Rightarrow> Inl e
           | Inr r \<Rightarrow> Inr (if w \<noteq> 0 then (i, j, w) # r else r)))"

fun aristas_de_filas :: "matriz_t \<Rightarrow> int list \<Rightarrow> py_error + (int \<times> int \<times> int) list" where
  "aristas_de_filas m [] = Inr []"
| "aristas_de_filas m (i # is) =
     (case aristas_de_fila m i (rango (length m)) of
        Inl e \<Rightarrow> Inl e
      | Inr r \<Rightarrow>
          (case aristas_de_filas m is of
             Inl e \<Rightarrow> Inl e
           | Inr rs \<Rightarrow> Inr (r @ rs)))"

definition matriz_a_aristas :: "matriz_t \<Rightarrow> py_error + (int \<times> int \<times> int) list" where
  "matriz_a_aristas m = aristas_de_filas m (rango (length m))"

type_synonym estado_bf = "distancia list \<times> padre_t \<times> paso_bf list \<times> bool"

fun bf_relajar ::
  "int \<Rightarrow> (int \<times> int \<times> int) list \<Rightarrow> estado_bf \<Rightarrow> py_error \<times> paso_bf list + estado_bf" where
  "bf_relajar i [] st = Inr st"
| "bf_relajar i ((u, v, peso) # resto) (dists, padre, pasos, cambio_en_iteracion) =
     (case py_get dists v of
        Inl e \<Rightarrow> Inl (e, pasos)
      | Inr dist_anterior \<Rightarrow>
          (case py_get dists u of
             Inl e \<Rightarrow> Inl (e, pasos)
           | Inr Infinito \<Rightarrow> bf_relajar i resto (dists, padre, pasos, cambio_en_iteracion)
           | Inr (Fin du) \<Rightarrow>
               if menor (Fin (suma64 du peso)) dist_anterior then
                 (case py_set dists v (Fin (suma64 du peso)) of
                    Inl e \<Rightarrow> Inl (e, pasos)
                  | Inr dist1 \<Rightarrow>
                      (case py_get dist1 v of
                         Inl e \<Rightarrow> Inl (e, pasos)
                       | Inr nueva \<Rightarrow>
                           bf_relajar i resto
                             (dist1, padre(v \<mapsto> Some u),
                              pasos @ [\<lparr>iter = i + 1, dist_bf = dist1,
                                         padre_bf = padre(v \<mapsto> Some u), cambio = True,
                                         arista_evaluada = Some (u, v), peso_bf = Some peso,
                                         dist_anterior_bf = Some dist_anterior,
                                         dist_nueva = Some nueva, tipo = ''relajacion''\<rparr>],
                              True)))
               else bf_relajar i resto (dists, padre, pasos, cambio_en_iteracion)))"

fun bf_iterar ::
  "(int \<times> int \<times> int) list \<Rightarrow> int list \<Rightarrow> distancia list \<times> padre_t \<times> paso_bf list
    \<Rightarrow> py_error \<times> paso_bf list + distancia list \<times> padre_t \<times> paso_bf list" where
  "bf_iterar grafo [] st = Inr st"
| "bf_iterar grafo (i # is) (dists, padre, pasos) =
     (case bf_relajar i grafo (dists, padre, pasos, False) of
        Inl e \<Rightarrow> Inl e
      | Inr (dist1, padre1, pasos1, cambio_en_iteracion) \<Rightarrow>
          if \<not> cambio_en_iteracion then
            Inr (dist1, padre1,
                 pasos1 @ [\<lparr>iter = i + 1, dist_bf = dist1, padre_bf = padre1, cambio = False,
                             arista_evaluada = None, peso_bf = None, dist_anterior_bf = None,
                             dist_nueva = None, tipo = ''sin_cambios''\<rparr>])
          else bf_iterar grafo is (dist1, padre1, pasos1))"

definition bf_principal ::
  "GrafoActivo \<Rightarrow> int \<Rightarrow> py_error \<times> paso_bf list + distancia list \<times> padre_t \<times> paso_bf list" where
  "bf_principal ga origen =
     (case matriz_a_aristas (matriz ga) of
        Inl e \<Rightarrow> Inl (e, [])
      | Inr grafo \<Rightarrow>
          (case py_set (replicate (N ga) Infinito) origen (Fin 0) of
             Inl e \<Rightarrow> Inl (e, [])
           | Inr dists \<Rightarrow> bf_iterar grafo (rango (N ga - 1)) (dists, [origen \<mapsto> None], [])))"

definition bellman_ford_pasos ::
  "GrafoActivo \<Rightarrow> int \<Rightarrow> int
    \<Rightarrow> (py_error \<times> paso_bf list + paso_bf list \<times> int list \<times> distancia list) option" where
  "bellman_ford_pasos ga origen objetivo =
     (case bf_principal ga origen of
        Inl e \<Rightarrow> Some (Inl e)
      | Inr (dists, padre, pasos) \<Rightarrow>
          (case reconstruir padre (Some objetivo) [] of
             None \<Rightarrow> None
           | Some camino \<Rightarrow> Some (Inr (pasos, rev camino, dists))))"

text \<open>
  The shape of a trace: a relaxation step is described relative to the distances and
  parents before it; a no-change step repeats them and ends the trace.
\<close>

definition es_relajacion ::
  "(int \<times> int \<times> int) list \<Rightarrow> distancia list \<Rightarrow> padre_t \<Rightarrow> paso_bf \<Rightarrow> bool" where
  "es_relajacion grafo dists padre s =
     (case (arista_evaluada s, peso_bf s, dist_anterior_bf s, dist_nueva s) of
        (Some (u, v), Some peso, Some anterior, Some nueva) \<Rightarrow>
          tipo s = ''relajacion'' \<and> cambio s \<and> (u, v, peso) \<in> set grafo
          \<and> py_get dists v = Inr anterior \<and> menor nueva anterior
          \<and> (case py_get dists u of Inr (Fin du) \<Rightarrow> nueva = Fin (suma64 du peso) | _ \<Rightarrow> False)
          \<and> py_set dists v nueva = Inr (dist_bf s) \<and> padre_bf s = padre(v \<mapsto> Some u)
      | _ \<Rightarrow> False)"



fun relajaciones ::
  "(int \<times> int \<times> int) list \<Rightarrow> int \<Rightarrow> distancia list \<Rightarrow> padre_t \<Rightarrow> paso_bf list \<Rightarrow> bool" where
  "relajaciones grafo k dists padre [] = True"
| "relajaciones grafo k dists padre (s # resto) =
     (es_relajacion grafo dists padre s \<and> iter s = k
      \<and> relajaciones grafo k (dist_bf s) (padre_bf s) resto)"

fun estado_tras :: "distancia list \<Rightarrow> padre_t \<Rightarrow> paso_bf list \<Rightarrow> distancia list \<times> padre_t" where
  "estado_tras dists padre [] = (dists, padre)"
| "estado_tras dists padre (s # resto) = estado_tras (dist_bf s) (padre_bf s) resto"


lemma relajaciones_append:
  "relajaciones grafo k dists padre (xs @ ys) =
     (relajaciones grafo k dists padre xs
      \<and> relajaciones grafo k (fst (estado_tras dists padre xs)) (snd (estado_tras dists padre xs)) ys)"
  by (induction xs arbitrary: dists padre) auto

lemma estado_tras_append:
  "estado_tras dists padre (xs @ ys) =
     estado_tras (fst (estado_tras dists padre xs)) (snd (estado_tras dists padre xs)) ys"
  by (induction xs arbitrary: dists padre) auto








section \<open>The enqueue history of BFS\<close>

text \<open>
  The same loop with a history variable: \<open>hist\<close> lists, in order, the pair \<open>(u, v)\<close> of
  every \<open>cola.append(v)\<close> executed while the neighbours of \<open>u\<close> are explored. The
  history is not read by the loop; erasing it gives \<open>bfs_bucle\<close>
  (lemma \<open>bfs_bucle_h_borrar\<close>). \<open>primer_encolado hist v\<close> is the node from which \<open>v\<close> was
  enqueued first.
\<close>

fun bfs_vecinos_h ::
  "matriz_t \<Rightarrow> int \<Rightarrow> int list \<Rightarrow> int set \<Rightarrow> padre_t \<times> int list \<times> (int \<times> int) list
    \<Rightarrow> py_error + padre_t \<times> int list \<times> (int \<times> int) list" where
  "bfs_vecinos_h m u [] visitado st = Inr st"
| "bfs_vecinos_h m u (v # vs) visitado (padre, cola, hist) =
     (case celda m u v of
        Inl e \<Rightarrow> Inl e
      | Inr w \<Rightarrow>
          if w > 0 \<and> v \<notin> visitado then
            bfs_vecinos_h m u vs visitado
              (if padre v = None then padre(v \<mapsto> Some u) else padre, cola @ [v],
               hist @ [(u, v)])
          else bfs_vecinos_h m u vs visitado (padre, cola, hist))"

lemma bfs_vecinos_h_borrar:
  "map_sum (\<lambda>e. e) (\<lambda>(padre, cola, hist). (padre, cola)) (bfs_vecinos_h m u vs visitado (padre, cola, hist))
    = bfs_vecinos m u vs visitado (padre, cola)"
  by (induction vs arbitrary: padre cola hist) (auto split: sum.splits)

lemma bfs_vecinos_h_fila:
  "bfs_vecinos_h m u (v # vs) visitado st = Inr st' \<Longrightarrow> u \<in> filas_validas m"
  by (cases st) (auto split: sum.splits dest: celda_Inr_fila)

function bfs_bucle_h ::
  "GrafoActivo \<Rightarrow> int set \<Rightarrow> int list \<Rightarrow> padre_t \<Rightarrow> paso list \<Rightarrow> (int \<times> int) list
    \<Rightarrow> py_error \<times> paso list + paso list \<times> (int \<times> int) list" where
  "bfs_bucle_h ga visitado cola padre pasos hist =
     (case cola of
        [] \<Rightarrow> Inr (pasos, hist)
      | u # cola1 \<Rightarrow>
          if u \<notin> visitado then
            (let visitado1 = insert u visitado;
                 pasos1 = pasos @ [\<lparr>actual = u, visitados = visitado1, padre_paso = padre\<rparr>]
             in case bfs_vecinos_h (matriz ga) u (rango (N ga)) visitado1 (padre, cola1, hist) of
                  Inl e \<Rightarrow> Inl (e, pasos1)
                | Inr (padre2, cola2, hist2) \<Rightarrow> bfs_bucle_h ga visitado1 cola2 padre2 pasos1 hist2)
          else bfs_bucle_h ga visitado cola1 padre pasos hist)"
  by pat_completeness auto
termination
proof (relation "inv_image (less_than <*lex*> less_than)
    (\<lambda>(ga, visitado, cola, padre, pasos, hist).
       (card (filas_validas (matriz ga) - visitado), length cola))", goal_cases)
  case 1
  show ?case by (intro wf_inv_image wf_lex_prod wf_less_than)
next
  case (2 ga visitado cola padre pasos hist u cola1 visitado1 pasos1 st padre2 x cola2 hist2)
  have fin: "finite (filas_validas (matriz ga))"
    by (simp add: filas_validas_def)
  show ?case
  proof (cases "N ga")
    case 0
    with 2 have "cola2 = cola1"
      by (auto simp: rango_def)
    moreover have "card (filas_validas (matriz ga) - visitado1)
        \<le> card (filas_validas (matriz ga) - visitado)"
      using 2 fin by (auto intro!: card_mono)
    ultimately show ?thesis
      using 2 by auto
  next
    case (Suc n)
    then have "rango (N ga) = 0 # map int [1..<Suc n]"
      by (simp add: rango_def upt_rec)
    with 2 have "u \<in> filas_validas (matriz ga)"
      using bfs_vecinos_h_fila by metis
    moreover have "u \<notin> visitado" "visitado1 = insert u visitado"
      using 2 by simp_all
    ultimately have "filas_validas (matriz ga) - visitado1
        \<subset> filas_validas (matriz ga) - visitado"
      by auto
    with fin have "card (filas_validas (matriz ga) - visitado1)
        < card (filas_validas (matriz ga) - visitado)"
      by (intro psubset_card_mono) auto
    then show ?thesis
      using 2 by simp
  qed
next
  case (3 ga visitado cola padre pasos hist u cola1)
  then show ?case by simp
qed

declare bfs_bucle_h.simps [simp del]

definition bfs_pasos_h ::
  "GrafoActivo \<Rightarrow> int \<Rightarrow> py_error \<times> paso list + paso list \<times> (int \<times> int) list" where
  "bfs_pasos_h ga inicio = bfs_bucle_h ga {} [inicio] [inicio \<mapsto> None] [] []"

lemma bfs_bucle_h_borrar:
  "map_sum (\<lambda>e. e) fst (bfs_bucle_h ga visitado cola padre pasos hist)
    = bfs_bucle ga visitado cola padre pasos"
proof (induction ga visitado cola padre pasos hist rule: bfs_bucle_h.induct)
  case (1 ga visitado cola padre pasos hist)
  show ?case
  proof (cases cola)
    case Nil
    then show ?thesis
      by (subst bfs_bucle_h.simps, subst bfs_bucle.simps) simp
  next
    case (Cons u cola1)
    show ?thesis
    proof (cases "u \<in> visitado")
      case True
      with Cons "1.IH"(2) show ?thesis
        by (subst bfs_bucle_h.simps, subst bfs_bucle.simps) simp
    next
      case False
      let ?v1 = "insert u visitado"
      let ?p1 = "pasos @ [\<lparr>actual = u, visitados = ?v1, padre_paso = padre\<rparr>]"
      show ?thesis
      proof (cases "bfs_vecinos_h (matriz ga) u (rango (N ga)) ?v1 (padre, cola1, hist)")
        case (Inl e)
        with bfs_vecinos_h_borrar [of "matriz ga" u "rango (N ga)" ?v1 padre cola1 hist]
        have "bfs_vecinos (matriz ga) u (rango (N ga)) ?v1 (padre, cola1) = Inl e"
          by simp
        with Inl Cons False show ?thesis
          by (subst bfs_bucle_h.simps, subst bfs_bucle.simps) (simp add: Let_def)
      next
        case (Inr st)
        obtain padre2 cola2 hist2 where st: "st = (padre2, cola2, hist2)"
          by (cases st) auto
        with Inr bfs_vecinos_h_borrar [of "matriz ga" u "rango (N ga)" ?v1 padre cola1 hist]
        have b: "bfs_vecinos (matriz ga) u (rango (N ga)) ?v1 (padre, cola1) = Inr (padre2, cola2)"
          by simp
        from "1.IH"(1) [OF Cons False refl refl Inr [unfolded st] refl refl]
        have "map_sum (\<lambda>e. e) fst (bfs_bucle_h ga ?v1 cola2 padre2 ?p1 hist2)
            = bfs_bucle ga ?v1 cola2 padre2 ?p1" .
        with Inr st b Cons False show ?thesis
          by (subst bfs_bucle_h.simps, subst bfs_bucle.simps) (simp add: Let_def)
      qed
    qed
  qed
qed

definition primer_encolado :: "(int \<times> int) list \<Rightarrow> int \<Rightarrow> int option" where
  "primer_encolado hist v = map_option fst (List.find (\<lambda>e. snd e = v) hist)"

definition padres_segun :: "int \<Rightarrow> padre_t \<Rightarrow> (int \<times> int) list \<Rightarrow> bool" where
  "padres_segun inicio padre hist =
     (padre inicio = Some None
      \<and> (\<forall>v. v \<noteq> inicio \<longrightarrow> padre v = map_option Some (primer_encolado hist v)))"

lemma primer_encolado_append:
  "primer_encolado hist v = Some u \<Longrightarrow> primer_encolado (hist @ ext) v = Some u"
  by (induction hist) (auto simp: primer_encolado_def split: if_splits)

lemma primer_encolado_snoc:
  "primer_encolado (hist @ [(u, v)]) w =
     (case primer_encolado hist w of
        Some x \<Rightarrow> Some x
      | None \<Rightarrow> if w = v then Some u else None)"
  by (induction hist) (auto simp: primer_encolado_def split: option.splits)

lemma padres_segun_encolar:
  assumes "padres_segun inicio padre hist"
  shows "padres_segun inicio (if padre v = None then padre(v \<mapsto> Some u) else padre)
           (hist @ [(u, v)])"
proof -
  from assms have i: "padre inicio = Some None"
    and r: "\<And>w. w \<noteq> inicio \<Longrightarrow> padre w = map_option Some (primer_encolado hist w)"
    by (auto simp: padres_segun_def)
  show ?thesis
    unfolding padres_segun_def
  proof (intro conjI allI impI)
    show "(if padre v = None then padre(v \<mapsto> Some u) else padre) inicio = Some None"
      using i by auto
  next
    fix w assume w: "w \<noteq> inicio"
    show "(if padre v = None then padre(v \<mapsto> Some u) else padre) w
        = map_option Some (primer_encolado (hist @ [(u, v)]) w)"
      using r [OF w] w
      by (cases "primer_encolado hist w") (auto simp: primer_encolado_snoc r)
  qed
qed

lemma bfs_vecinos_h_padres:
  "bfs_vecinos_h m u vs visitado (padre, cola, hist) = Inr (padre2, cola2, hist2)
    \<Longrightarrow> padres_segun inicio padre hist
    \<Longrightarrow> padres_segun inicio padre2 hist2 \<and> (\<exists>ext. hist2 = hist @ ext) \<and> padre \<subseteq>\<^sub>m padre2"
proof (induction vs arbitrary: padre cola hist)
  case Nil
  then show ?case by simp
next
  case (Cons v vs)
  from Cons.prems(1) obtain w where w: "celda m u v = Inr w"
    by (auto split: sum.splits)
  show ?case
  proof (cases "w > 0 \<and> v \<notin> visitado")
    case False
    with Cons.prems w have "bfs_vecinos_h m u vs visitado (padre, cola, hist) = Inr (padre2, cola2, hist2)"
      by auto
    from Cons.IH [OF this Cons.prems(2)] show ?thesis .
  next
    case True
    let ?p = "if padre v = None then padre(v \<mapsto> Some u) else padre"
    from True Cons.prems w
    have "bfs_vecinos_h m u vs visitado (?p, cola @ [v], hist @ [(u, v)]) = Inr (padre2, cola2, hist2)"
      by auto
    from Cons.IH [OF this padres_segun_encolar [OF Cons.prems(2)]]
    have a: "padres_segun inicio padre2 hist2" and b: "\<exists>ext. hist2 = (hist @ [(u, v)]) @ ext"
      and c: "?p \<subseteq>\<^sub>m padre2" by auto
    have "padre \<subseteq>\<^sub>m ?p"
      by (auto simp: map_le_def)
    from map_le_trans [OF this c] have "padre \<subseteq>\<^sub>m padre2" .
    with a b show ?thesis by auto
  qed
qed

lemma bfs_bucle_h_padres:
  "bfs_bucle_h ga visitado cola padre pasos hist = Inr (pasos', hist')
    \<Longrightarrow> padres_segun inicio padre hist
    \<Longrightarrow> \<exists>nuevos ext. pasos' = pasos @ nuevos \<and> hist' = hist @ ext
          \<and> (\<forall>s \<in> set nuevos. \<exists>h0 e0. hist' = h0 @ e0 \<and> padres_segun inicio (padre_paso s) h0)
          \<and> (\<forall>s \<in> set nuevos. padre \<subseteq>\<^sub>m padre_paso s)
          \<and> sorted_wrt (\<lambda>a b. padre_paso a \<subseteq>\<^sub>m padre_paso b) nuevos"
proof (induction ga visitado cola padre pasos hist rule: bfs_bucle_h.induct)
  case (1 ga visitado cola padre pasos hist)
  show ?case
  proof (cases cola)
    case Nil
    with "1.prems"(1) have "pasos' = pasos" "hist' = hist"
      by (subst (asm) bfs_bucle_h.simps, simp)+
    then show ?thesis by simp
  next
    case (Cons u cola1)
    show ?thesis
    proof (cases "u \<in> visitado")
      case True
      with Cons "1.prems"(1) have "bfs_bucle_h ga visitado cola1 padre pasos hist = Inr (pasos', hist')"
        by (subst (asm) bfs_bucle_h.simps) simp
      from "1.IH"(2) [OF Cons _ this "1.prems"(2)] True show ?thesis by simp
    next
      case False
      let ?v1 = "insert u visitado"
      let ?s0 = "\<lparr>actual = u, visitados = ?v1, padre_paso = padre\<rparr>"
      from Cons False "1.prems"(1) obtain padre2 cola2 hist2 where
        a: "bfs_vecinos_h (matriz ga) u (rango (N ga)) ?v1 (padre, cola1, hist) = Inr (padre2, cola2, hist2)" and
        b: "bfs_bucle_h ga ?v1 cola2 padre2 (pasos @ [?s0]) hist2 = Inr (pasos', hist')"
        by (subst (asm) bfs_bucle_h.simps) (auto simp: Let_def split: sum.splits)
      from bfs_vecinos_h_padres [OF a "1.prems"(2)] obtain ext1 where
        v: "padres_segun inicio padre2 hist2" "hist2 = hist @ ext1" "padre \<subseteq>\<^sub>m padre2"
        by blast
      from "1.IH"(1) [OF Cons False refl refl a refl refl b v(1)] obtain n2 ext2 where
        r: "pasos' = (pasos @ [?s0]) @ n2" "hist' = hist2 @ ext2"
           "\<forall>s \<in> set n2. \<exists>h0 e0. hist' = h0 @ e0 \<and> padres_segun inicio (padre_paso s) h0"
           "\<forall>s \<in> set n2. padre2 \<subseteq>\<^sub>m padre_paso s"
           "sorted_wrt (\<lambda>a b. padre_paso a \<subseteq>\<^sub>m padre_paso b) n2"
        by blast
      have s0: "\<exists>h0 e0. hist' = h0 @ e0 \<and> padres_segun inicio (padre_paso ?s0) h0"
        using r(2) v(2) "1.prems"(2) by (intro exI [of _ hist] exI [of _ "ext1 @ ext2"]) simp
      have le: "\<forall>s \<in> set n2. padre \<subseteq>\<^sub>m padre_paso s"
        using r(4) v(3) by (blast intro: map_le_trans)
      show ?thesis
        using r(1,2,3,5) v(2) s0 le
        by (intro exI [of _ "?s0 # n2"] exI [of _ "ext1 @ ext2"]) auto
    qed
  qed
qed

section \<open>algorithms/a_star.py\<close>

text \<open>
  \<open>generar_coords\<close> of grafo.py and the heuristic \<open>h\<close>. A missing key of \<open>coords\<close> or of
  \<open>g\<close> raises KeyError.

  Floating point. \<open>math.hypot\<close> of two Python integers and the sum
  \<open>nuevo + h(v, objetivo)\<close> of a 64-bit integer and a float are floats, rounded by the
  machine. The two operations are arguments of the model: \<open>fl\<close> gives them, on a type
  of float values that is ordered as the floats are (no NaN arises from finite
  arguments), so that every statement about \<open>a_star_pasos\<close> with a variable \<open>fl\<close> holds
  whatever the rounding is. \<open>exacto\<close> computes with the real numbers themselves; it gives
  what the machine gives wherever the heuristic and the priorities are integers below
  \<open>2\<^sup>5\<^sup>3\<close>, as they are on the grid positions of one row with small weights.
  \<open>math.ceil(math.sqrt(n))\<close> is the exact \<open>\<lceil>\<surd>n\<rceil>\<close> for every \<open>n < 2\<^sup>5\<^sup>2\<close>: the square root is
  correctly rounded, and below that bound no rounding reaches or crosses an integer.
  \<open>g[u] + ga.matriz[u][v]\<close> adds two 64-bit integers and wraps around. An exception comes
  with the steps that \<open>pasos\<close> held when it was raised; the caller receives the exception
  only.
\<close>

record 'f flotantes =
  hypot_f :: "int \<Rightarrow> int \<Rightarrow> 'f"
  suma_f :: "int \<Rightarrow> 'f \<Rightarrow> 'f"

type_synonym g_t = "int \<rightharpoonup> int"

record paso_a_star = paso +
  g_paso :: g_t

definition columnas :: "nat \<Rightarrow> int" where
  "columnas n = \<lceil>sqrt (real n)\<rceil>"

definition generar_coords :: "nat \<Rightarrow> (int \<rightharpoonup> int \<times> int)" where
  "generar_coords n =
     foldl (\<lambda>coords i. coords(i \<mapsto> (i mod columnas n, i div columnas n))) Map.empty (rango n)"

definition hypot :: "int \<Rightarrow> int \<Rightarrow> real" where
  "hypot x y = sqrt (real_of_int (x * x + y * y))"

definition exacto :: "real flotantes" where
  "exacto = \<lparr>hypot_f = hypot, suma_f = (\<lambda>n x. real_of_int n + x)\<rparr>"

lemma exacto_simps [simp]:
  "hypot_f exacto = hypot" "suma_f exacto n x = real_of_int n + x"
  by (simp_all add: exacto_def)

definition h :: "'f flotantes \<Rightarrow> (int \<rightharpoonup> int \<times> int) \<Rightarrow> int \<Rightarrow> int \<Rightarrow> py_error + 'f" where
  "h fl coords a b =
     (case coords b of
        None \<Rightarrow> Inl KeyError
      | Some cb \<Rightarrow>
          (case coords a of
             None \<Rightarrow> Inl KeyError
           | Some ca \<Rightarrow> Inr (hypot_f fl (fst cb - fst ca) (snd cb - snd ca))))"

fun a_star_expandir ::
  "('f::linorder) flotantes \<Rightarrow> matriz_t \<Rightarrow> (int \<rightharpoonup> int \<times> int) \<Rightarrow> int \<Rightarrow> int \<Rightarrow> int list
    \<Rightarrow> g_t \<times> padre_t \<times> ('f \<times> int) list
    \<Rightarrow> py_error + g_t \<times> padre_t \<times> ('f \<times> int) list" where
  "a_star_expandir fl m coords objetivo u [] st = Inr st"
| "a_star_expandir fl m coords objetivo u (v # vs) (g, padre, pq) =
     (case celda m u v of
        Inl e \<Rightarrow> Inl e
      | Inr w \<Rightarrow>
          if w > 0 then
            (case g u of
               None \<Rightarrow> Inl KeyError
             | Some gu \<Rightarrow>
                 (let nuevo = suma64 gu w in
                  if (case g v of None \<Rightarrow> True | Some gv \<Rightarrow> nuevo < gv) then
                    (case h fl coords v objetivo of
                       Inl e \<Rightarrow> Inl e
                     | Inr hv \<Rightarrow>
                         a_star_expandir fl m coords objetivo u vs
                           (g(v \<mapsto> nuevo), padre(v \<mapsto> Some u),
                            heappush pq (suma_f fl nuevo hv, v)))
                  else a_star_expandir fl m coords objetivo u vs (g, padre, pq)))
          else a_star_expandir fl m coords objetivo u vs (g, padre, pq))"

lemma a_star_expandir_fila:
  "a_star_expandir fl m coords objetivo u (v # vs) st = Inr st' \<Longrightarrow> u \<in> filas_validas m"
  by (cases st) (auto split: sum.splits dest: celda_Inr_fila)

function a_star_bucle ::
  "('f::linorder) flotantes \<Rightarrow> GrafoActivo \<Rightarrow> (int \<rightharpoonup> int \<times> int) \<Rightarrow> int \<Rightarrow> g_t \<Rightarrow> padre_t
    \<Rightarrow> ('f \<times> int) list \<Rightarrow> paso_a_star list \<Rightarrow> int set
    \<Rightarrow> py_error \<times> paso_a_star list + paso_a_star list \<times> padre_t \<times> g_t" where
  "a_star_bucle fl ga coords objetivo g padre pq pasos visitado =
     (if pq = [] then Inr (pasos, padre, g)
      else
        (case heappop pq of
           ((f, u), pq1) \<Rightarrow>
             if u \<in> visitado then a_star_bucle fl ga coords objetivo g padre pq1 pasos visitado
             else
               (let visitado1 = insert u visitado;
                    pasos1 = pasos @ [\<lparr>actual = u, visitados = visitado1,
                                        padre_paso = padre, g_paso = g\<rparr>]
                in if u = objetivo then Inr (pasos1, padre, g)
                   else
                     (case a_star_expandir fl (matriz ga) coords objetivo u (rango (N ga))
                             (g, padre, pq1) of
                        Inl e \<Rightarrow> Inl (e, pasos1)
                      | Inr (g2, padre2, pq2) \<Rightarrow>
                          a_star_bucle fl ga coords objetivo g2 padre2 pq2 pasos1 visitado1))))"
  by pat_completeness auto
termination
proof (relation "inv_image (less_than <*lex*> less_than)
    (\<lambda>(fl, ga, coords, objetivo, g, padre, pq, pasos, visitado).
       (card (filas_validas (matriz ga) - visitado), length pq))", goal_cases)
  case 1
  show ?case by (intro wf_inv_image wf_lex_prod wf_less_than)
next
  case (2 fl ga coords objetivo g padre pq pasos visitado x pq1 f u)
  then show ?case
    using heappop_length [of pq "(f, u)" pq1] by simp
next
  case (3 fl ga coords objetivo g padre pq pasos visitado x pq1 f u visitado1 pasos1 st g2 x2 padre2 pq2)
  have fin: "finite (filas_validas (matriz ga))"
    by (simp add: filas_validas_def)
  show ?case
  proof (cases "N ga")
    case 0
    with 3 have "pq2 = pq1"
      by (auto simp: rango_def)
    moreover have "length pq1 < length pq"
      using 3 heappop_length [of pq "(f, u)" pq1] by simp
    moreover have "card (filas_validas (matriz ga) - visitado1)
        \<le> card (filas_validas (matriz ga) - visitado)"
      using 3 fin by (auto intro!: card_mono)
    ultimately show ?thesis
      using 3 by auto
  next
    case (Suc n)
    then have "rango (N ga) = 0 # map int [1..<Suc n]"
      by (simp add: rango_def upt_rec)
    with 3 have "u \<in> filas_validas (matriz ga)"
      using a_star_expandir_fila by metis
    moreover have "u \<notin> visitado" "visitado1 = insert u visitado"
      using 3 by simp_all
    ultimately have "filas_validas (matriz ga) - visitado1
        \<subset> filas_validas (matriz ga) - visitado"
      by auto
    with fin have "card (filas_validas (matriz ga) - visitado1)
        < card (filas_validas (matriz ga) - visitado)"
      by (intro psubset_card_mono) auto
    then show ?thesis
      using 3 by simp
  qed
qed

declare a_star_bucle.simps [simp del]

definition a_star_pasos ::
  "('f::linorder) flotantes \<Rightarrow> GrafoActivo \<Rightarrow> int \<Rightarrow> int
    \<Rightarrow> (py_error \<times> paso_a_star list + paso_a_star list \<times> int list \<times> g_t) option" where
  "a_star_pasos fl ga inicio objetivo =
     (let coords = generar_coords (N ga) in
      case h fl coords inicio objetivo of
        Inl e \<Rightarrow> Some (Inl (e, []))
      | Inr h0 \<Rightarrow>
          (case a_star_bucle fl ga coords objetivo [inicio \<mapsto> 0] [inicio \<mapsto> None]
                  [(h0, inicio)] [] {} of
             Inl e \<Rightarrow> Some (Inl e)
           | Inr (pasos, padre, g) \<Rightarrow>
               (case reconstruir padre (Some objetivo) [] of
                  None \<Rightarrow> None
                | Some camino \<Rightarrow> Some (Inr (pasos, rev camino, g)))))"

lemma generar_coords_eq:
  "generar_coords n i =
     (if 0 \<le> i \<and> i < int n then Some (i mod columnas n, i div columnas n) else None)"
proof -
  have "foldl (\<lambda>coords i. coords(i \<mapsto> F i)) Map.empty (map int [0..<k]) i =
      (if 0 \<le> i \<and> i < int k then Some (F i) else None)" for F :: "int \<Rightarrow> int \<times> int" and k
    by (induction k) auto
  then show ?thesis
    by (simp add: generar_coords_def rango_def)
qed

lemma hypot_fila: "hypot x 0 = \<bar>real_of_int x\<bar>"
proof -
  have "sqrt (real_of_int (x * x)) = sqrt ((real_of_int x)\<^sup>2)"
    by (simp add: power2_eq_square)
  then show ?thesis
    by (simp add: hypot_def)
qed

section \<open>Traces that only grow\<close>

text \<open>
  \<open>crece V xs\<close>: in the list \<open>xs\<close> of pairs (node, visited set), every visited set is the one
  before it (\<open>V\<close> for the first) plus the node of its step, which was not in it. Every
  loop returns the list \<open>pasos\<close> it was entered with, followed by steps of that shape.
  For Prim the visited set of a step is the set of its list \<open>'visitados'\<close>.
\<close>

fun crece :: "int set \<Rightarrow> (int \<times> int set) list \<Rightarrow> bool" where
  "crece V [] = True"
| "crece V ((u, V') # resto) = (u \<notin> V \<and> V' = insert u V \<and> crece V' resto)"

definition vista :: "'a paso_scheme \<Rightarrow> int \<times> int set" where
  "vista s = (actual s, visitados s)"

lemma vista_paso [simp]:
  "vista \<lparr>actual = u, visitados = V, padre_paso = p, \<dots> = z\<rparr> = (u, V)"
  by (simp add: vista_def)

lemma bfs_bucle_crece:
  "bfs_bucle ga visitado cola padre pasos = Inr r
    \<Longrightarrow> \<exists>ext. r = pasos @ ext \<and> crece visitado (map vista ext)"
proof (induction ga visitado cola padre pasos rule: bfs_bucle.induct)
  case (1 ga visitado cola padre pasos)
  show ?case
  proof (cases cola)
    case Nil
    with "1.prems" show ?thesis by (subst (asm) bfs_bucle.simps) simp
  next
    case (Cons u cola1)
    show ?thesis
    proof (cases "u \<in> visitado")
      case True
      with Cons "1.prems" have "bfs_bucle ga visitado cola1 padre pasos = Inr r"
        by (subst (asm) bfs_bucle.simps) simp
      from "1.IH"(2) [OF Cons _ this] True show ?thesis by simp
    next
      case False
      let ?v1 = "insert u visitado"
      let ?s = "\<lparr>actual = u, visitados = ?v1, padre_paso = padre\<rparr>"
      from Cons False "1.prems" obtain padre2 cola2 where
        a: "bfs_vecinos (matriz ga) u (rango (N ga)) ?v1 (padre, cola1) = Inr (padre2, cola2)" and
        b: "bfs_bucle ga ?v1 cola2 padre2 (pasos @ [?s]) = Inr r"
        by (subst (asm) bfs_bucle.simps) (auto simp: Let_def split: sum.splits)
      from "1.IH"(1) [OF Cons False refl refl a refl b] obtain ext where
        "r = (pasos @ [?s]) @ ext" "crece ?v1 (map vista ext)" by blast
      with False show ?thesis
        by (intro exI [of _ "?s # ext"]) (simp add: vista_paso)
    qed
  qed
qed

lemma dijkstra_bucle_crece:
  "dijkstra_bucle ga objetivo dists padre pq pasos visitado = Inr (r, padre', dist')
    \<Longrightarrow> \<exists>ext. r = pasos @ ext \<and> crece visitado (map vista ext)"
proof (induction ga objetivo dists padre pq pasos visitado rule: dijkstra_bucle.induct)
  case (1 ga objetivo dists padre pq pasos visitado)
  show ?case
  proof (cases "pq = []")
    case True
    with "1.prems" show ?thesis by (subst (asm) dijkstra_bucle.simps) simp
  next
    case False
    obtain costo u pq1 where pop: "heappop pq = ((costo, u), pq1)"
      by (metis prod.exhaust)
    show ?thesis
    proof (cases "u \<in> visitado")
      case True
      with False pop "1.prems"
      have "dijkstra_bucle ga objetivo dists padre pq1 pasos visitado = Inr (r, padre', dist')"
        by (subst (asm) dijkstra_bucle.simps) simp
      from "1.IH"(1) [OF False pop [symmetric] refl True this] show ?thesis .
    next
      case nv: False
      let ?v1 = "insert u visitado"
      let ?s = "\<lparr>actual = u, visitados = ?v1, padre_paso = padre, dist_paso = dists\<rparr>"
      show ?thesis
      proof (cases "u = objetivo")
        case True
        with False pop nv "1.prems" have "r = pasos @ [?s]"
          by (subst (asm) dijkstra_bucle.simps) (auto simp: Let_def)
        with nv show ?thesis
          by (intro exI [of _ "[?s]"]) (simp add: vista_paso)
      next
        case no: False
        with False pop nv "1.prems" obtain dist2 padre2 pq2 where
          a: "dijkstra_relajar (matriz ga) costo u (rango (N ga)) (dists, padre, pq1)
                = Inr (dist2, padre2, pq2)" and
          b: "dijkstra_bucle ga objetivo dist2 padre2 pq2 (pasos @ [?s]) ?v1 = Inr (r, padre', dist')"
          by (subst (asm) dijkstra_bucle.simps) (auto simp: Let_def split: sum.splits)
        from "1.IH"(2) [OF False pop [symmetric] refl nv refl refl no a refl refl b]
        obtain ext where "r = (pasos @ [?s]) @ ext" "crece ?v1 (map vista ext)" by blast
        with nv show ?thesis
          by (intro exI [of _ "?s # ext"]) (simp add: vista_paso)
      qed
    qed
  qed
qed

lemma a_star_bucle_crece:
  "a_star_bucle fl ga coords objetivo g padre pq pasos visitado = Inr (r, padre', g')
    \<Longrightarrow> \<exists>ext. r = pasos @ ext \<and> crece visitado (map vista ext)"
proof (induction fl ga coords objetivo g padre pq pasos visitado rule: a_star_bucle.induct)
  case (1 fl ga coords objetivo g padre pq pasos visitado)
  show ?case
  proof (cases "pq = []")
    case True
    with "1.prems" show ?thesis by (subst (asm) a_star_bucle.simps) simp
  next
    case False
    obtain f u pq1 where pop: "heappop pq = ((f, u), pq1)"
      by (metis prod.exhaust)
    show ?thesis
    proof (cases "u \<in> visitado")
      case True
      with False pop "1.prems"
      have "a_star_bucle fl ga coords objetivo g padre pq1 pasos visitado = Inr (r, padre', g')"
        by (subst (asm) a_star_bucle.simps) simp
      from "1.IH"(1) [OF False pop [symmetric] refl True this] show ?thesis .
    next
      case nv: False
      let ?v1 = "insert u visitado"
      let ?s = "\<lparr>actual = u, visitados = ?v1, padre_paso = padre, g_paso = g\<rparr>"
      show ?thesis
      proof (cases "u = objetivo")
        case True
        with False pop nv "1.prems" have "r = pasos @ [?s]"
          by (subst (asm) a_star_bucle.simps) (auto simp: Let_def)
        with nv show ?thesis
          by (intro exI [of _ "[?s]"]) (simp add: vista_paso)
      next
        case no: False
        with False pop nv "1.prems" obtain g2 padre2 pq2 where
          a: "a_star_expandir fl (matriz ga) coords objetivo u (rango (N ga)) (g, padre, pq1)
                = Inr (g2, padre2, pq2)" and
          b: "a_star_bucle fl ga coords objetivo g2 padre2 pq2 (pasos @ [?s]) ?v1 = Inr (r, padre', g')"
          by (subst (asm) a_star_bucle.simps) (auto simp: Let_def split: sum.splits)
        from "1.IH"(2) [OF False pop [symmetric] refl nv refl refl no a refl refl b]
        obtain ext where "r = (pasos @ [?s]) @ ext" "crece ?v1 (map vista ext)" by blast
        with nv show ?thesis
          by (intro exI [of _ "?s # ext"]) (simp add: vista_paso)
      qed
    qed
  qed
qed

definition ultimo_visitados :: "int set \<Rightarrow> (int \<times> int set) list \<Rightarrow> int set" where
  "ultimo_visitados V xs = (if xs = [] then V else snd (last xs))"

lemma crece_append:
  "crece V (xs @ ys) = (crece V xs \<and> crece (ultimo_visitados V xs) ys)"
  by (induction V xs rule: crece.induct) (auto simp: ultimo_visitados_def)

lemma ultimo_visitados_append:
  "ultimo_visitados V (xs @ ys) = ultimo_visitados (ultimo_visitados V xs) ys"
  by (auto simp: ultimo_visitados_def)

lemma dfs_crece:
  "dfs_visita ga marcos u st = Inr st' \<Longrightarrow> u \<notin> fst st
    \<Longrightarrow> \<exists>ext. snd (snd st') = snd (snd st) @ ext \<and> crece (fst st) (map vista ext)
          \<and> fst st' = ultimo_visitados (fst st) (map vista ext)"
  "dfs_vecinos ga marcos u vs st = Inr st''
    \<Longrightarrow> \<exists>ext. snd (snd st'') = snd (snd st) @ ext \<and> crece (fst st) (map vista ext)
          \<and> fst st'' = ultimo_visitados (fst st) (map vista ext)"
proof (induction ga marcos u st and ga marcos u vs st arbitrary: st' and st''
    rule: dfs_visita_dfs_vecinos.induct)
  case (1 ga u visitado padre pasos)
  then show ?case by simp
next
  case (2 ga marcos u visitado padre pasos)
  let ?v1 = "insert u visitado"
  let ?s = "\<lparr>actual = u, visitados = ?v1, padre_paso = padre\<rparr>"
  from "2.prems"(1) have "dfs_vecinos ga marcos u (rango (N ga)) (?v1, padre, pasos @ [?s]) = Inr st'"
    by (simp add: Let_def)
  from "2.IH" [OF refl refl this] obtain ext where
    e: "snd (snd st') = (pasos @ [?s]) @ ext" "crece ?v1 (map vista ext)"
       "fst st' = ultimo_visitados ?v1 (map vista ext)"
    by auto
  have "ultimo_visitados visitado (map vista (?s # ext)) = ultimo_visitados ?v1 (map vista ext)"
    by (simp add: ultimo_visitados_def)
  with e "2.prems"(2) show ?case
    by (intro exI [of _ "?s # ext"]) simp
next
  case (3 ga marcos u st)
  then show ?case
    by (intro exI [of _ "[]"]) (simp add: ultimo_visitados_def)
next
  case (4 ga marcos u v vs visitado padre pasos)
  from "4.prems" obtain w where w: "celda (matriz ga) u v = Inr w"
    by (auto split: sum.splits)
  show ?case
  proof (cases "0 < w \<and> v \<notin> visitado")
    case True
    with w "4.prems" obtain st1 where
      a: "dfs_visita ga marcos v (visitado, padre(v \<mapsto> Some u), pasos) = Inr st1" and
      b: "dfs_vecinos ga marcos u vs st1 = Inr st''"
      by (auto split: sum.splits)
    from "4.IH"(1) [OF w True a] True obtain e1 where
      e1: "snd (snd st1) = pasos @ e1" "crece visitado (map vista e1)"
          "fst st1 = ultimo_visitados visitado (map vista e1)"
      by auto
    from "4.IH"(2) [OF w True a b] obtain e2 where
      e2: "snd (snd st'') = snd (snd st1) @ e2" "crece (fst st1) (map vista e2)"
          "fst st'' = ultimo_visitados (fst st1) (map vista e2)"
      by auto
    from e1 e2 show ?thesis
      by (intro exI [of _ "e1 @ e2"]) (simp add: crece_append ultimo_visitados_append)
  next
    case False
    with w "4.prems" have "dfs_vecinos ga marcos u vs (visitado, padre, pasos) = Inr st''"
      by (auto split: sum.splits)
    from "4.IH"(3) [OF w False this] show ?thesis .
  qed
qed

text \<open>Kruskal: each step extends the list of the step before by the accepted edge, or repeats it.\<close>

fun extiende :: "(int \<times> int) list \<Rightarrow> (bool \<times> (int \<times> int) \<times> (int \<times> int) list) list \<Rightarrow> bool" where
  "extiende M [] = True"
| "extiende M ((aceptada, e, M') # resto) =
     (M' = (if aceptada then M @ [e] else M) \<and> extiende M' resto)"

definition vista_kruskal :: "paso_kruskal \<Rightarrow> bool \<times> (int \<times> int) \<times> (int \<times> int) list" where
  "vista_kruskal s = (ok s, edge s, mst_paso s)"

lemma vista_kruskal_paso [simp]:
  "vista_kruskal \<lparr>mst_paso = M, edge = e, w_paso = w, ok = b\<rparr> = (b, e, M)"
  by (simp add: vista_kruskal_def)

lemma kruskal_bucle_extiende:
  "kruskal_bucle aristas padre_uf mst pasos = Some (Inr r)
    \<Longrightarrow> \<exists>ext. r = pasos @ ext \<and> extiende mst (map vista_kruskal ext)"
proof (induction aristas padre_uf mst pasos rule: kruskal_bucle.induct)
  case (1 padre_uf mst pasos)
  then show ?case by simp
next
  case (2 u v w resto padre_uf mst pasos)
  from "2.prems" obtain ru padre_uf1 where
    f1: "find_uf padre_uf u = Some (Inr (ru, padre_uf1))"
    by (auto split: option.splits sum.splits)
  from "2.prems" f1 obtain rv padre_uf2 where
    f2: "find_uf padre_uf1 v = Some (Inr (rv, padre_uf2))"
    by (auto split: option.splits sum.splits)
  show ?case
  proof (cases "ru \<noteq> rv")
    case True
    let ?s = "\<lparr>mst_paso = mst @ [(u, v)], edge = (u, v), w_paso = w, ok = (ru \<noteq> rv)\<rparr>"
    from "2.prems" f1 f2 True obtain padre_uf3 where
      s: "py_set padre_uf2 ru rv = Inr padre_uf3" and
      b: "kruskal_bucle resto padre_uf3 (mst @ [(u, v)]) (pasos @ [?s]) = Some (Inr r)"
      by (auto simp: Let_def split: sum.splits)
    from "2.IH"(1) [OF f1 refl refl f2 refl refl refl True s refl b]
    obtain ext where "r = (pasos @ [?s]) @ ext" "extiende (mst @ [(u, v)]) (map vista_kruskal ext)"
      by auto
    with True show ?thesis
      by (intro exI [of _ "?s # ext"]) simp
  next
    case False
    let ?s = "\<lparr>mst_paso = mst, edge = (u, v), w_paso = w, ok = (ru \<noteq> rv)\<rparr>"
    from "2.prems" f1 f2 False
    have b: "kruskal_bucle resto padre_uf2 mst (pasos @ [?s]) = Some (Inr r)"
      by (auto simp: Let_def)
    from "2.IH"(2) [OF f1 refl refl f2 refl refl refl False b]
    obtain ext where "r = (pasos @ [?s]) @ ext" "extiende mst (map vista_kruskal ext)"
      by auto
    with False show ?thesis
      by (intro exI [of _ "?s # ext"]) simp
  qed
qed

definition marcados :: "bool list \<Rightarrow> int set" where
  "marcados visitado = {i. 0 \<le> i \<and> i < int (length visitado) \<and> visitado ! nat i}"

definition vista_prim :: "paso_prim \<Rightarrow> int \<times> int set" where
  "vista_prim s = (actual_prim s, set (visitados_prim s))"

lemma vista_prim_paso [simp]:
  "vista_prim \<lparr>mst_paso = M, actual_prim = u, visitados_prim = vis\<rparr> = (u, set vis)"
  by (simp add: vista_prim_def)

lemma indices_visitados_set:
  "indices_visitados visitado is = Inr vis \<Longrightarrow> \<forall>i \<in> set is. 0 \<le> i
    \<Longrightarrow> set vis = {i \<in> set is. i < int (length visitado) \<and> visitado ! nat i}"
proof (induction "is" arbitrary: vis)
  case Nil
  then show ?case by simp
next
  case (Cons i "is")
  from Cons.prems(1) obtain b r where
    b: "py_get visitado i = Inr b" and r: "indices_visitados visitado is = Inr r"
    and v: "vis = (if b then i # r else r)"
    by (auto split: sum.splits)
  from Cons.prems(2) have i: "0 \<le> i" by simp
  with b have bi: "i < int (length visitado)" "b = visitado ! nat i"
    by (auto simp: py_get_def split: if_splits)
  from Cons.IH [OF r] Cons.prems(2)
  have "set r = {i \<in> set is. i < int (length visitado) \<and> visitado ! nat i}" by simp
  with v bi show ?case by auto
qed

lemma set_rango: "set (rango n) = {i. 0 \<le> i \<and> i < int n}"
proof -
  have "i \<in> int ` {0..<n}" if "0 \<le> i" "i < int n" for i
    using that by (intro image_eqI [of _ _ "nat i"]) auto
  then show ?thesis
    by (auto simp: rango_def)
qed

lemma indices_visitados_marcados:
  assumes "indices_visitados visitado (rango (length visitado)) = Inr vis"
  shows "set vis = marcados visitado"
proof -
  have "\<forall>i \<in> set (rango (length visitado)). 0 \<le> i"
    by (auto simp: rango_def)
  from indices_visitados_set [OF assms this] show ?thesis
    by (auto simp: marcados_def set_rango)
qed

lemma marcados_marcar:
  assumes "py_get visitado u = Inr False" and "py_set visitado u True = Inr visitado1"
    and "0 \<le> u"
  shows "marcados visitado1 = insert u (marcados visitado)" and "u \<notin> marcados visitado"
    and "length visitado1 = length visitado"
proof -
  from assms have u: "u < int (length visitado)" "\<not> visitado ! nat u"
    and v1: "visitado1 = visitado[nat u := True]"
    by (auto simp: py_get_def py_set_def split: if_splits)
  from v1 show "length visitado1 = length visitado" by simp
  from u show "u \<notin> marcados visitado" by (simp add: marcados_def)
  show "marcados visitado1 = insert u (marcados visitado)"
  proof (rule set_eqI)
    fix i
    show "i \<in> marcados visitado1 \<longleftrightarrow> i \<in> insert u (marcados visitado)"
    proof (cases "i = u")
      case True
      with u assms(3) v1 show ?thesis by (simp add: marcados_def)
    next
      case False
      then have "0 \<le> i \<Longrightarrow> nat i \<noteq> nat u" using assms(3) by simp
      with False v1 show ?thesis
        by (auto simp: marcados_def)
    qed
  qed
qed

lemma prim_vecinos_no_negativos:
  "prim_vecinos u vecinos visitado (padre, heap) = Inr (padre2, heap2)
    \<Longrightarrow> \<forall>e \<in> set vecinos. 0 \<le> fst e \<Longrightarrow> \<forall>e \<in> set heap. 0 \<le> snd e
    \<Longrightarrow> \<forall>e \<in> set heap2. 0 \<le> snd e"
proof (induction vecinos arbitrary: padre heap)
  case Nil
  then show ?case by simp
next
  case (Cons e vecinos)
  obtain v w where e: "e = (v, w)" by (cases e) auto
  from Cons.prems(1) e obtain b where b: "py_get visitado v = Inr b"
    by (auto split: sum.splits)
  show ?case
  proof (cases b)
    case True
    with Cons.prems(1) e b have "prim_vecinos u vecinos visitado (padre, heap) = Inr (padre2, heap2)"
      by simp
    from Cons.IH [OF this] Cons.prems(2,3) show ?thesis by simp
  next
    case False
    with Cons.prems(1) e b obtain padre1 where
      "prim_vecinos u vecinos visitado (padre1, heappush heap (w, v)) = Inr (padre2, heap2)"
      by (auto split: sum.splits)
    from Cons.IH [OF this] Cons.prems(2,3) e show ?thesis
      by (simp add: heappush_def)
  qed
qed

lemma heappop_set:
  assumes "pq \<noteq> []" and "heappop pq = (x, pq1)"
  shows "x \<in> set pq" and "set pq1 \<subseteq> set pq"
proof -
  have "heap_min (hd pq) (tl pq) \<in> set (hd pq # tl pq)"
    by (rule heap_min_in)
  with assms(1) have "heap_min (hd pq) (tl pq) \<in> set pq" by simp
  with assms(2) show "x \<in> set pq"
    by (simp add: heappop_def Let_def)
  from assms(2) have "pq1 = remove1 x pq"
    by (auto simp: heappop_def Let_def)
  then show "set pq1 \<subseteq> set pq"
    using set_remove1_subset [of x pq] by simp
qed

lemma lista_ady_fila_no_negativos:
  "lista_ady_fila m i js = Inr r \<Longrightarrow> \<forall>j \<in> set js. 0 \<le> j \<Longrightarrow> \<forall>e \<in> set r. 0 \<le> fst e"
  by (induction js arbitrary: r) (auto split: sum.splits if_splits)

lemma lista_ady_filas_no_negativos:
  "lista_ady_filas m is = Inr lista \<Longrightarrow> \<forall>fila \<in> set lista. \<forall>e \<in> set fila. 0 \<le> fst e"
proof (induction "is" arbitrary: lista)
  case Nil
  then show ?case by simp
next
  case (Cons i "is")
  from Cons.prems obtain r rs where
    r: "lista_ady_fila m i (rango (length m)) = Inr r" and
    rs: "lista_ady_filas m is = Inr rs" and l: "lista = r # rs"
    by (auto split: sum.splits)
  have "\<forall>j \<in> set (rango (length m)). 0 \<le> j" by (auto simp: rango_def)
  from lista_ady_fila_no_negativos [OF r this] Cons.IH [OF rs] l show ?case by simp
qed

lemma prim_bucle_crece:
  "prim_bucle ga lista visitado heap mst padre pasos = Inr r
    \<Longrightarrow> length visitado = N ga
    \<Longrightarrow> \<forall>fila \<in> set lista. \<forall>e \<in> set fila. 0 \<le> fst e
    \<Longrightarrow> \<forall>e \<in> set heap. 0 \<le> snd e
    \<Longrightarrow> \<exists>ext. r = pasos @ ext \<and> crece (marcados visitado) (map vista_prim ext)"
proof (induction ga lista visitado heap mst padre pasos rule: prim_bucle.induct)
  case (1 ga lista visitado heap mst padre pasos)
  show ?case
  proof (cases "heap = []")
    case True
    with "1.prems"(1) show ?thesis by (subst (asm) prim_bucle.simps) simp
  next
    case False
    obtain peso u heap1 where pop: "heappop heap = ((peso, u), heap1)"
      by (metis prod.exhaust)
    from heappop_set [OF False pop] "1.prems"(4)
    have u0: "0 \<le> u" and h1: "\<forall>e \<in> set heap1. 0 \<le> snd e" by auto
    from False pop "1.prems"(1) obtain ya where ya: "py_get visitado u = Inr ya"
      by (subst (asm) prim_bucle.simps) (auto split: sum.splits)
    show ?thesis
    proof (cases ya)
      case True
      with False pop ya "1.prems"(1)
      have "prim_bucle ga lista visitado heap1 mst padre pasos = Inr r"
        by (subst (asm) prim_bucle.simps) simp
      from "1.IH"(1) [OF False pop [symmetric] refl ya True this "1.prems"(2,3) h1]
      show ?thesis .
    next
      case nv: False
      from False pop ya nv "1.prems"(1) obtain visitado1 pu vis vecinos padre2 heap2 where
        s: "py_set visitado u True = Inr visitado1" and
        p: "py_get padre u = Inr pu" and
        i: "indices_visitados visitado1 (rango (N ga)) = Inr vis" and
        l: "py_get lista u = Inr vecinos" and
        v: "prim_vecinos u vecinos visitado1 (padre, heap1) = Inr (padre2, heap2)" and
        b: "prim_bucle ga lista visitado1 heap2 (if pu \<noteq> - 1 then mst @ [(pu, u)] else mst) padre2
              (pasos @ [\<lparr>mst_paso = (if pu \<noteq> - 1 then mst @ [(pu, u)] else mst),
                          actual_prim = u, visitados_prim = vis\<rparr>]) = Inr r"
        by (subst (asm) prim_bucle.simps) (auto simp: Let_def split: sum.splits)
      let ?mst1 = "if pu \<noteq> - 1 then mst @ [(pu, u)] else mst"
      let ?s = "\<lparr>mst_paso = ?mst1, actual_prim = u, visitados_prim = vis\<rparr>"
      from ya nv have ya': "py_get visitado u = Inr False" by simp
      note m = marcados_marcar [OF ya' s u0]
      from m(3) "1.prems"(2) have len1: "length visitado1 = N ga" by simp
      from i len1 have vis: "set vis = marcados visitado1"
        by (intro indices_visitados_marcados) simp
      from l have "vecinos \<in> set lista" by (rule py_get_Inr_set)
      with "1.prems"(3) have "\<forall>e \<in> set vecinos. 0 \<le> fst e" by blast
      from prim_vecinos_no_negativos [OF v this h1] have h2: "\<forall>e \<in> set heap2. 0 \<le> snd e" .
      from "1.IH"(2) [OF False pop [symmetric] refl ya nv s p refl i refl l v refl b len1
          "1.prems"(3) h2]
      obtain ext where e: "r = (pasos @ [?s]) @ ext" "crece (marcados visitado1) (map vista_prim ext)"
        by blast
      from e m vis show ?thesis
        by (intro exI [of _ "?s # ext"]) simp
    qed
  qed
qed

lemma prim_bucle_prefijo:
  "prim_bucle ga lista visitado heap mst padre pasos = Inr r \<Longrightarrow> \<exists>ext. r = pasos @ ext"
proof (induction ga lista visitado heap mst padre pasos rule: prim_bucle.induct)
  case (1 ga lista visitado heap mst padre pasos)
  show ?case
  proof (cases "heap = []")
    case True
    with "1.prems"(1) show ?thesis by (subst (asm) prim_bucle.simps) simp
  next
    case False
    obtain peso u heap1 where pop: "heappop heap = ((peso, u), heap1)"
      by (metis prod.exhaust)
    from False pop "1.prems"(1) obtain ya where ya: "py_get visitado u = Inr ya"
      by (subst (asm) prim_bucle.simps) (auto split: sum.splits)
    show ?thesis
    proof (cases ya)
      case True
      with False pop ya "1.prems"(1)
      have "prim_bucle ga lista visitado heap1 mst padre pasos = Inr r"
        by (subst (asm) prim_bucle.simps) simp
      from "1.IH"(1) [OF False pop [symmetric] refl ya True this] show ?thesis .
    next
      case nv: False
      from False pop ya nv "1.prems"(1) obtain visitado1 pu vis vecinos padre2 heap2 where
        s: "py_set visitado u True = Inr visitado1" and
        p: "py_get padre u = Inr pu" and
        i: "indices_visitados visitado1 (rango (N ga)) = Inr vis" and
        l: "py_get lista u = Inr vecinos" and
        v: "prim_vecinos u vecinos visitado1 (padre, heap1) = Inr (padre2, heap2)" and
        b: "prim_bucle ga lista visitado1 heap2 (if pu \<noteq> - 1 then mst @ [(pu, u)] else mst) padre2
              (pasos @ [\<lparr>mst_paso = (if pu \<noteq> - 1 then mst @ [(pu, u)] else mst),
                          actual_prim = u, visitados_prim = vis\<rparr>]) = Inr r"
        by (subst (asm) prim_bucle.simps) (auto simp: Let_def split: sum.splits)
      from "1.IH"(2) [OF False pop [symmetric] refl ya nv s p refl i refl l v refl b]
      show ?thesis by auto
    qed
  qed
qed

section \<open>grafo.py: \<open>cargar_desde_json\<close>\<close>

text \<open>
  The outcome of \<open>open\<close> and \<open>json.load\<close> is the input: an exception, or the decoded
  document. A document is a JSON value; Python's \<open>None\<close> is \<open>JNull\<close>. Every operation of
  the body that can raise on a value of the wrong shape returns the exception:
  \<open>len\<close>, \<open>in\<close>, indexing by key and by position, iteration, \<open>dict.get\<close>, item
  assignment. The builtins whose result depends on Python's treatment of mixed
  values are parameters, with any behaviour: \<open>a != b\<close>, \<open>max(a, b)\<close> (which may raise),
  \<open>str(x)\<close> on a value that is not a string, and \<open>str(e)\<close> on an exception. Strings are
  lists of characters and \<open>len\<close> of a string counts them. The rows of a decoded matrix
  are distinct objects, so the item assignments are updates of the value. The
  result is the returned triple.
\<close>

datatype json =
  JNull | JBool bool | JInt int | JFloat real | JStr string
  | JList "json list" | JObj "(string \<times> json) list"

datatype lectura = Falla py_error | Datos json

record python =
  distinto :: "json \<Rightarrow> json \<Rightarrow> bool"
  maximo :: "json \<Rightarrow> json \<Rightarrow> py_error + json"
  str_py :: "json \<Rightarrow> string"
  mensaje :: "py_error \<Rightarrow> string"

fun py_len :: "json \<Rightarrow> py_error + nat" where
  "py_len (JList xs) = Inr (length xs)"
| "py_len (JStr s) = Inr (length s)"
| "py_len (JObj kv) = Inr (length kv)"
| "py_len _ = Inl TypeError"

fun subcadena :: "string \<Rightarrow> string \<Rightarrow> bool" where
  "subcadena k [] = (k = [])"
| "subcadena k (c # s) = (take (length k) (c # s) = k \<or> subcadena k s)"

fun contiene :: "string \<Rightarrow> json \<Rightarrow> py_error + bool" where
  "contiene k (JObj kv) = Inr (map_of kv k \<noteq> None)"
| "contiene k (JList xs) = Inr (JStr k \<in> set xs)"
| "contiene k (JStr s) = Inr (subcadena k s)"
| "contiene k _ = Inl TypeError"

fun indice_clave :: "json \<Rightarrow> string \<Rightarrow> py_error + json" where
  "indice_clave (JObj kv) k = (case map_of kv k of None \<Rightarrow> Inl KeyError | Some v \<Rightarrow> Inr v)"
| "indice_clave _ k = Inl TypeError"

fun obtener :: "json \<Rightarrow> string \<Rightarrow> json \<Rightarrow> py_error + json" where
  "obtener (JObj kv) k defecto = Inr (case map_of kv k of None \<Rightarrow> defecto | Some v \<Rightarrow> v)"
| "obtener _ k defecto = Inl AttributeError"

fun indice_int :: "json \<Rightarrow> nat \<Rightarrow> py_error + json" where
  "indice_int (JList xs) i = (if i < length xs then Inr (xs ! i) else Inl IndexError)"
| "indice_int (JStr s) i = (if i < length s then Inr (JStr [s ! i]) else Inl IndexError)"
| "indice_int (JObj kv) i = Inl KeyError"
| "indice_int _ i = Inl TypeError"

fun iterar :: "json \<Rightarrow> py_error + json list" where
  "iterar (JList xs) = Inr xs"
| "iterar (JStr s) = Inr (map (\<lambda>c. JStr [c]) s)"
| "iterar (JObj kv) = Inr (map (\<lambda>e. JStr (fst e)) kv)"
| "iterar _ = Inl TypeError"

fun asignar_celda :: "json \<Rightarrow> nat \<Rightarrow> nat \<Rightarrow> json \<Rightarrow> py_error + json" where
  "asignar_celda (JList xs) i j val =
     (if i < length xs then
        (case xs ! i of
           JList fila \<Rightarrow>
             if j < length fila then Inr (JList (xs[i := JList (fila[j := val])]))
             else Inl IndexError
         | JObj kv \<Rightarrow> Inl KeyError
         | _ \<Rightarrow> Inl TypeError)
      else Inl IndexError)"
| "asignar_celda (JStr s) i j val = (if i < length s then Inl TypeError else Inl IndexError)"
| "asignar_celda (JObj kv) i j val = Inl KeyError"
| "asignar_celda _ i j val = Inl TypeError"

definition texto :: "python \<Rightarrow> json \<Rightarrow> string" where
  "texto py x = (case x of JStr s \<Rightarrow> s | _ \<Rightarrow> str_py py x)"

fun filas_cuadradas :: "json list \<Rightarrow> nat \<Rightarrow> py_error + bool" where
  "filas_cuadradas [] n = Inr True"
| "filas_cuadradas (fila # resto) n =
     (case py_len fila of
        Inl e \<Rightarrow> Inl e
      | Inr k \<Rightarrow> if k \<noteq> n then Inr False else filas_cuadradas resto n)"

definition simetrizar_celda :: "python \<Rightarrow> json \<Rightarrow> nat \<Rightarrow> nat \<Rightarrow> py_error + json" where
  "simetrizar_celda py m i j =
     (case indice_int m i of
        Inl e \<Rightarrow> Inl e
      | Inr fi \<Rightarrow>
          (case indice_int fi j of
             Inl e \<Rightarrow> Inl e
           | Inr a \<Rightarrow>
               (case indice_int m j of
                  Inl e \<Rightarrow> Inl e
                | Inr fj \<Rightarrow>
                    (case indice_int fj i of
                       Inl e \<Rightarrow> Inl e
                     | Inr b \<Rightarrow>
                         if distinto py a b then
                           (case maximo py a b of
                              Inl e \<Rightarrow> Inl e
                            | Inr val \<Rightarrow>
                                (case asignar_celda m i j val of
                                   Inl e \<Rightarrow> Inl e
                                 | Inr m1 \<Rightarrow> asignar_celda m1 j i val))
                         else Inr m))))"

fun simetrizar_fila :: "python \<Rightarrow> json \<Rightarrow> nat \<Rightarrow> nat list \<Rightarrow> py_error + json" where
  "simetrizar_fila py m i [] = Inr m"
| "simetrizar_fila py m i (j # js) =
     (case simetrizar_celda py m i j of
        Inl e \<Rightarrow> Inl e
      | Inr m1 \<Rightarrow> simetrizar_fila py m1 i js)"

fun simetrizar :: "python \<Rightarrow> json \<Rightarrow> nat \<Rightarrow> nat list \<Rightarrow> py_error + json" where
  "simetrizar py m n [] = Inr m"
| "simetrizar py m n (i # is) =
     (case simetrizar_fila py m i [0..<n] of
        Inl e \<Rightarrow> Inl e
      | Inr m1 \<Rightarrow> simetrizar py m1 n is)"

function decimal :: "nat \<Rightarrow> string" where
  "decimal n =
     (if n < 10 then [char_of (48 + n)] else decimal (n div 10) @ [char_of (48 + n mod 10)])"
  by pat_completeness auto
termination
  by (relation "measure (\<lambda>n. n)") auto

declare decimal.simps [simp del]

definition nombre_por_defecto :: "nat \<Rightarrow> string" where
  "nombre_por_defecto i = (if i < 26 then [char_of (65 + i)] else CHR ''N'' # decimal i)"

fun nodos_de :: "python \<Rightarrow> json list \<Rightarrow> string list \<Rightarrow> py_error + string list" where
  "nodos_de py [] nodos = Inr nodos"
| "nodos_de py (a # resto) nodos =
     (case indice_clave a ''origen'' of
        Inl e \<Rightarrow> Inl e
      | Inr ori \<Rightarrow>
          (case indice_clave a ''destino'' of
             Inl e \<Rightarrow> Inl e
           | Inr des \<Rightarrow> nodos_de py resto (nodos @ [texto py ori, texto py des])))"

definition idx_de :: "string list \<Rightarrow> string \<Rightarrow> py_error + nat" where
  "idx_de noms nombre =
     (case map_of (rev (zip noms [0..<length noms])) nombre of
        None \<Rightarrow> Inl KeyError
      | Some i \<Rightarrow> Inr i)"

fun llenar :: "python \<Rightarrow> string list \<Rightarrow> json list \<Rightarrow> json \<Rightarrow> py_error + json" where
  "llenar py noms [] m = Inr m"
| "llenar py noms (a # resto) m =
     (case indice_clave a ''origen'' of
        Inl e \<Rightarrow> Inl e
      | Inr ori \<Rightarrow>
          (case idx_de noms (texto py ori) of
             Inl e \<Rightarrow> Inl e
           | Inr u \<Rightarrow>
               (case indice_clave a ''destino'' of
                  Inl e \<Rightarrow> Inl e
                | Inr des \<Rightarrow>
                    (case idx_de noms (texto py des) of
                       Inl e \<Rightarrow> Inl e
                     | Inr v \<Rightarrow>
                         (case obtener a ''peso'' (JInt 1) of
                            Inl e \<Rightarrow> Inl e
                          | Inr peso \<Rightarrow>
                              (case asignar_celda m u v peso of
                                 Inl e \<Rightarrow> Inl e
                               | Inr m1 \<Rightarrow>
                                   (case asignar_celda m1 v u peso of
                                      Inl e \<Rightarrow> Inl e
                                    | Inr m2 \<Rightarrow> llenar py noms resto m2)))))))"

type_synonym resultado_json = "json \<times> json \<times> string option"

definition formato_matriz :: "python \<Rightarrow> json \<Rightarrow> py_error + resultado_json" where
  "formato_matriz py data =
     (case indice_clave data ''matriz'' of
        Inl e \<Rightarrow> Inl e
      | Inr m \<Rightarrow>
          (case py_len m of
             Inl e \<Rightarrow> Inl e
           | Inr n \<Rightarrow>
               (case iterar m of
                  Inl e \<Rightarrow> Inl e
                | Inr filas \<Rightarrow>
                    (case filas_cuadradas filas n of
                       Inl e \<Rightarrow> Inl e
                     | Inr False \<Rightarrow> Inr (JNull, JNull, Some ''La matriz no es cuadrada'')
                     | Inr True \<Rightarrow>
                         (case simetrizar py m n [0..<n] of
                            Inl e \<Rightarrow> Inl e
                          | Inr m1 \<Rightarrow>
                              (case obtener data ''nombres'' JNull of
                                 Inl e \<Rightarrow> Inl e
                               | Inr noms \<Rightarrow>
                                   if noms = JNull then
                                     Inr (m1, JList (map (\<lambda>i. JStr (nombre_por_defecto i)) [0..<n]), None)
                                   else
                                     (case py_len noms of
                                        Inl e \<Rightarrow> Inl e
                                      | Inr k \<Rightarrow>
                                          if k \<noteq> n then
                                            Inr (m1, JList (map (\<lambda>i. JStr (nombre_por_defecto i)) [0..<n]), None)
                                          else Inr (m1, noms, None))))))))"

definition formato_aristas :: "python \<Rightarrow> json \<Rightarrow> py_error + resultado_json" where
  "formato_aristas py data =
     (case indice_clave data ''aristas'' of
        Inl e \<Rightarrow> Inl e
      | Inr ars \<Rightarrow>
          (case iterar ars of
             Inl e \<Rightarrow> Inl e
           | Inr lista \<Rightarrow>
               (case nodos_de py lista [] of
                  Inl e \<Rightarrow> Inl e
                | Inr nodos \<Rightarrow>
                    (let noms = sort (remdups nodos);
                         n = length noms;
                         ceros = JList (replicate n (JList (replicate n (JInt 0))))
                     in case llenar py noms lista ceros of
                          Inl e \<Rightarrow> Inl e
                        | Inr m \<Rightarrow> Inr (m, JList (map JStr noms), None)))))"

definition cuerpo_json :: "python \<Rightarrow> json \<Rightarrow> py_error + resultado_json" where
  "cuerpo_json py data =
     (case contiene ''matriz'' data of
        Inl e \<Rightarrow> Inl e
      | Inr True \<Rightarrow> formato_matriz py data
      | Inr False \<Rightarrow>
          (case contiene ''aristas'' data of
             Inl e \<Rightarrow> Inl e
           | Inr True \<Rightarrow> formato_aristas py data
           | Inr False \<Rightarrow>
               Inr (JNull, JNull,
                    Some (''JSON debe contener '' @ [CHR 0x27] @ ''matriz'' @ [CHR 0x27]
                          @ '' o '' @ [CHR 0x27] @ ''aristas'' @ [CHR 0x27]))))"

definition manejar :: "python \<Rightarrow> py_error \<Rightarrow> resultado_json" where
  "manejar py e =
     (JNull, JNull,
      Some (case e of
              FileNotFoundError \<Rightarrow> ''Archivo no encontrado''
            | JSONDecodeError \<Rightarrow> ''JSON inv'' @ [CHR 0xC3, CHR 0xA1] @ ''lido''
            | _ \<Rightarrow> mensaje py e))"

definition cargar_desde_json :: "python \<Rightarrow> lectura \<Rightarrow> resultado_json" where
  "cargar_desde_json py lec =
     (case lec of
        Falla e \<Rightarrow> manejar py e
      | Datos data \<Rightarrow>
          (case cuerpo_json py data of
             Inl e \<Rightarrow> manejar py e
           | Inr r \<Rightarrow> r))"

definition bien_formado :: "resultado_json \<Rightarrow> bool" where
  "bien_formado r =
     (case r of
        (m, noms, None) \<Rightarrow> m \<noteq> JNull \<and> noms \<noteq> JNull
      | (m, noms, Some msg) \<Rightarrow> m = JNull \<and> noms = JNull)"

lemma py_len_no_nulo: "py_len m = Inr n \<Longrightarrow> m \<noteq> JNull"
  by (cases m) auto

lemma asignar_celda_no_nulo: "asignar_celda m i j val = Inr m1 \<Longrightarrow> m1 \<noteq> JNull"
  by (cases m) (auto split: if_splits json.splits)

lemma simetrizar_celda_no_nulo:
  "simetrizar_celda py m i j = Inr m1 \<Longrightarrow> m \<noteq> JNull \<Longrightarrow> m1 \<noteq> JNull"
  by (auto simp: simetrizar_celda_def split: sum.splits if_splits dest: asignar_celda_no_nulo)

lemma simetrizar_fila_no_nulo:
  "simetrizar_fila py m i js = Inr m1 \<Longrightarrow> m \<noteq> JNull \<Longrightarrow> m1 \<noteq> JNull"
  by (induction js arbitrary: m) (auto split: sum.splits dest: simetrizar_celda_no_nulo)

lemma simetrizar_no_nulo:
  "simetrizar py m n is = Inr m1 \<Longrightarrow> m \<noteq> JNull \<Longrightarrow> m1 \<noteq> JNull"
  by (induction "is" arbitrary: m) (auto split: sum.splits dest: simetrizar_fila_no_nulo)

lemma llenar_no_nulo:
  "llenar py noms lista m = Inr m1 \<Longrightarrow> m \<noteq> JNull \<Longrightarrow> m1 \<noteq> JNull"
  by (induction lista arbitrary: m) (auto split: sum.splits dest: asignar_celda_no_nulo)

lemma formato_matriz_bien_formado:
  "formato_matriz py data = Inr r \<Longrightarrow> bien_formado r"
proof -
  assume a: "formato_matriz py data = Inr r"
  then obtain m n filas c where
    m: "indice_clave data ''matriz'' = Inr m" "py_len m = Inr n" "iterar m = Inr filas"
       "filas_cuadradas filas n = Inr c"
    by (auto simp: formato_matriz_def split: sum.splits)
  show ?thesis
  proof (cases c)
    case False
    with a m have "r = (JNull, JNull, Some ''La matriz no es cuadrada'')"
      by (auto simp: formato_matriz_def)
    then show ?thesis by (simp add: bien_formado_def)
  next
    case True
    with a m obtain m1 noms where
      s: "simetrizar py m n [0..<n] = Inr m1" "obtener data ''nombres'' JNull = Inr noms"
      by (auto simp: formato_matriz_def split: sum.splits)
    from simetrizar_no_nulo [OF s(1) py_len_no_nulo [OF m(2)]] have m1: "m1 \<noteq> JNull" .
    from a m True s have
      "r = (m1, JList (map (\<lambda>i. JStr (nombre_por_defecto i)) [0..<n]), None)
        \<or> (r = (m1, noms, None) \<and> noms \<noteq> JNull)"
      by (auto simp: formato_matriz_def split: sum.splits if_splits)
    with m1 show ?thesis by (auto simp: bien_formado_def)
  qed
qed

lemma formato_aristas_bien_formado:
  "formato_aristas py data = Inr r \<Longrightarrow> bien_formado r"
proof -
  assume a: "formato_aristas py data = Inr r"
  then obtain lista nodos m where
    l: "llenar py (sort (remdups nodos)) lista
          (JList (replicate (length (sort (remdups nodos)))
             (JList (replicate (length (sort (remdups nodos))) (JInt 0))))) = Inr m"
       "r = (m, JList (map JStr (sort (remdups nodos))), None)"
    by (auto simp: formato_aristas_def Let_def split: sum.splits)
  from llenar_no_nulo [OF l(1)] have "m \<noteq> JNull" by simp
  with l(2) show ?thesis by (simp add: bien_formado_def)
qed

lemma cuerpo_json_bien_formado: "cuerpo_json py data = Inr r \<Longrightarrow> bien_formado r"
  by (auto simp: cuerpo_json_def bien_formado_def split: sum.splits bool.splits
      dest: formato_matriz_bien_formado formato_aristas_bien_formado)

lemma manejar_bien_formado: "\<exists>msg. manejar py e = (JNull, JNull, Some msg)"
  by (simp add: manejar_def)

text \<open>A choice of the builtins on integers, for running the model.\<close>

definition python_ejemplo :: python where
  "python_ejemplo =
     \<lparr>distinto = (\<lambda>a b. a \<noteq> b),
      maximo = (\<lambda>a b. case (a, b) of
                         (JInt x, JInt y) \<Rightarrow> Inr (JInt (max x y))
                       | _ \<Rightarrow> Inl TypeError),
      str_py = (\<lambda>x. ''?''),
      mensaje = (\<lambda>e. ''error'')\<rparr>"

section \<open>config.py: the bundled sample graphs\<close>

definition grafo2_matriz :: matriz_t where
  "grafo2_matriz =
    [[0,  4,  0,  0,  0,  0,  0],
     [4,  0,  8,  0,  0,  0, 11],
     [0,  8,  0,  7,  0,  4,  0],
     [0,  0,  7,  0,  9, 14,  0],
     [0,  0,  0,  9,  0, 10,  0],
     [0,  0,  4, 14, 10,  0,  2],
     [0, 11,  0,  0,  0,  2,  0]]"

definition grafo2_nombres :: "string list" where
  "grafo2_nombres = [''S'', ''T'', ''U'', ''V'', ''W'', ''X'', ''Y'']"


text \<open>
  The second entry of \<open>GRAFOS_EJEMPLO\<close>, loaded as the application does. Its key holds a
  dash outside ASCII, written here as a hyphen; the name plays no part in any algorithm.
\<close>

definition grafo2_nombre :: string where
  "grafo2_nombre = ''Grafo 2 - 7 nodos''"

definition grafo2 :: "py_error + GrafoActivo" where
  "grafo2 = cargar grafo2_matriz grafo2_nombres grafo2_nombre"

definition prim_grafo2 :: "py_error + paso_prim list" where
  "prim_grafo2 = (case grafo2 of Inl e \<Rightarrow> Inl e | Inr ga \<Rightarrow> prim_pasos ga)"

definition kruskal_grafo2 :: "(py_error + paso_kruskal list) option" where
  "kruskal_grafo2 = (case grafo2 of Inl e \<Rightarrow> Some (Inl e) | Inr ga \<Rightarrow> kruskal_pasos ga)"

fun peso_aristas :: "matriz_t \<Rightarrow> (int \<times> int) list \<Rightarrow> py_error + int" where
  "peso_aristas m [] = Inr 0"
| "peso_aristas m ((u, v) # resto) =
     (case celda m u v of
        Inl e \<Rightarrow> Inl e
      | Inr w \<Rightarrow> (case peso_aristas m resto of Inl e \<Rightarrow> Inl e | Inr s \<Rightarrow> Inr (w + s)))"

definition peso_kruskal :: "(py_error + paso_kruskal list) option \<Rightarrow> int option" where
  "peso_kruskal r =
     (case r of
        Some (Inr pasos) \<Rightarrow> Some (sum_list (map w_paso (filter ok pasos)))
      | _ \<Rightarrow> None)"

definition peso_prim :: "matriz_t \<Rightarrow> py_error + paso_prim list \<Rightarrow> int option" where
  "peso_prim m r =
     (case r of
        Inr pasos \<Rightarrow>
          (if pasos = [] then Some 0
           else (case peso_aristas m (mst_paso (last pasos)) of
                   Inl e \<Rightarrow> None
                 | Inr s \<Rightarrow> Some s))
      | Inl e \<Rightarrow> None)"

definition bfs_grafo2 :: "int \<Rightarrow> py_error \<times> paso list + paso list" where
  "bfs_grafo2 inicio = (case grafo2 of Inl e \<Rightarrow> Inl (e, []) | Inr ga \<Rightarrow> bfs_pasos ga inicio)"

definition dijkstra_grafo2 ::
  "(py_error \<times> paso_dijkstra list + paso_dijkstra list \<times> int list \<times> distancia list) option" where
  "dijkstra_grafo2 =
     (case grafo2 of
        Inl e \<Rightarrow> Some (Inl (e, []))
      | Inr ga \<Rightarrow> dijkstra_pasos ga 0 4)"

text \<open>What the caller reads off the result: the path and the distance of a node.\<close>

definition camino_de ::
  "('e + 'p list \<times> int list \<times> 'd) option \<Rightarrow> int list option" where
  "camino_de r = (case r of Some (Inr (pasos, camino, d)) \<Rightarrow> Some camino | _ \<Rightarrow> None)"

definition dist_de ::
  "('e + 'p list \<times> int list \<times> distancia list) option \<Rightarrow> int \<Rightarrow> distancia option" where
  "dist_de r v =
     (case r of
        Some (Inr (pasos, camino, dists)) \<Rightarrow>
          (case py_get dists v of Inl e \<Rightarrow> None | Inr d \<Rightarrow> Some d)
      | _ \<Rightarrow> None)"

text \<open>
  A graph of ten nodes with the edges \<open>A-B\<close> of weight 1, \<open>A-D\<close> of weight 1 and \<open>B-D\<close> of
  weight 3. Its grid has four columns, so the nodes 0 to 3 lie in one row and the
  heuristic between them is the difference of their indices. The run of A* from
  node 1 to node 3 is evaluated step by step.
\<close>

lemma columnas_10: "columnas 10 = 4"
proof -
  have "3 < sqrt (10 :: real)"
    by (rule real_less_rsqrt) simp
  moreover have "sqrt (10 :: real) \<le> 4"
    by (rule real_le_lsqrt) simp_all
  ultimately show ?thesis
    unfolding columnas_def by (intro ceiling_unique) simp_all
qed

definition m10 :: matriz_t where
  "m10 =
    [[0, 1, 0, 1, 0, 0, 0, 0, 0, 0],
     [1, 0, 0, 3, 0, 0, 0, 0, 0, 0],
     [0, 0, 0, 0, 0, 0, 0, 0, 0, 0],
     [1, 3, 0, 0, 0, 0, 0, 0, 0, 0],
     [0, 0, 0, 0, 0, 0, 0, 0, 0, 0],
     [0, 0, 0, 0, 0, 0, 0, 0, 0, 0],
     [0, 0, 0, 0, 0, 0, 0, 0, 0, 0],
     [0, 0, 0, 0, 0, 0, 0, 0, 0, 0],
     [0, 0, 0, 0, 0, 0, 0, 0, 0, 0],
     [0, 0, 0, 0, 0, 0, 0, 0, 0, 0]]"

definition ga10 :: GrafoActivo where
  "ga10 = \<lparr>matriz = m10, nombres = [''A'', ''B'', ''C'', ''D'', ''E'', ''F'', ''G'', ''H'', ''I'', ''J''],
            N = 10, G = [(''A'', ''B'', 1), (''A'', ''D'', 1), (''B'', ''D'', 3)], nombre_grafo = ''Prueba''\<rparr>"

lemma cargar10: "cargar m10 [''A'', ''B'', ''C'', ''D'', ''E'', ''F'', ''G'', ''H'', ''I'', ''J''] ''Prueba'' = Inr ga10"
  by code_simp

lemma h_10: "h exacto (generar_coords 10) 1 3 = Inr 2" "h exacto (generar_coords 10) 0 3 = Inr 3"
  "h exacto (generar_coords 10) 3 3 = Inr 0"
  by (simp_all add: h_def generar_coords_eq columnas_10 hypot_fila)

lemma rango_10: "rango 10 = [0, 1, 2, 3, 4, 5, 6, 7, 8, 9]"
  by code_simp

lemma celdas_10:
  "map (\<lambda>v. celda m10 1 v) [0, 1, 2, 3, 4, 5, 6, 7, 8, 9]
    = [Inr 1, Inr 0, Inr 0, Inr 3, Inr 0, Inr 0, Inr 0, Inr 0, Inr 0, Inr 0]"
  by code_simp

lemma expandir_10:
  "a_star_expandir exacto m10 (generar_coords 10) 3 1 (rango 10) ([1 \<mapsto> 0], [1 \<mapsto> None], [])
    = Inr ([1 \<mapsto> 0, 0 \<mapsto> 1, 3 \<mapsto> 3], [1 \<mapsto> None, 0 \<mapsto> Some 1, 3 \<mapsto> Some 1], [(4, 0), (3, 3)])"
  using celdas_10 by (simp add: rango_10 h_10 heappush_def suma64_def)

lemma a_star_10:
  "a_star_bucle exacto ga10 (generar_coords 10) 3 [1 \<mapsto> 0] [1 \<mapsto> None] [(2, 1)] [] {}
    = Inr ([\<lparr>actual = 1, visitados = {1}, padre_paso = [1 \<mapsto> None], g_paso = [1 \<mapsto> 0]\<rparr>,
            \<lparr>actual = 3, visitados = {3, 1}, padre_paso = [1 \<mapsto> None, 0 \<mapsto> Some 1, 3 \<mapsto> Some 1],
               g_paso = [1 \<mapsto> 0, 0 \<mapsto> 1, 3 \<mapsto> 3]\<rparr>],
           [1 \<mapsto> None, 0 \<mapsto> Some 1, 3 \<mapsto> Some 1], [1 \<mapsto> 0, 0 \<mapsto> 1, 3 \<mapsto> 3])"
  apply (subst a_star_bucle.simps)
  apply (simp add: heappop_def tupla_le_def ga10_def expandir_10 Let_def)
  apply (subst a_star_bucle.simps)
  apply (simp add: heappop_def tupla_le_def Let_def)
  done

lemma a_star_pasos_10:
  "\<exists>pa ca gf. a_star_pasos exacto ga10 1 3 = Some (Inr (pa, ca, gf)) \<and> map actual pa = [1, 3]
     \<and> ca = [1, 3] \<and> gf 3 = Some 3"
proof -
  have n: "N ga10 = 10" by (simp add: ga10_def)
  have r: "reconstruir [1 \<mapsto> None, 0 \<mapsto> Some 1, 3 \<mapsto> Some 1] (Some 3) [] = Some [3, 1]"
    by (simp add: reconstruir.simps)
  show ?thesis
    by (simp add: a_star_pasos_def n h_10 a_star_10 r)
qed

section \<open>Claim C1: Dijkstra on the bundled 7-node graph\<close>

text \<open>
  C1, as stated: on the 7-node sample graph, Dijkstra from \<open>S\<close> (index 0) to \<open>W\<close>
  (index 4) reports the total cost \<open>dist[W] = 21\<close>. The code reports 26, so the
  statement is false on the code.
\<close>

theorem C1_counterexample: "dist_de dijkstra_grafo2 4 \<noteq> Some (Fin 21)"
  by code_simp

text \<open>
  C1, amended: on the bundled 7-node sample graph, \<open>dijkstra_pasos\<close> from \<open>S\<close> (index 0)
  to \<open>W\<close> (index 4) returns without error the path
  \<open>S \<rightarrow> T \<rightarrow> U \<rightarrow> X \<rightarrow> W\<close>, that is \<open>[0, 1, 2, 5, 4]\<close>, and the reported total cost
  \<open>dist[W]\<close> is 26, the sum \<open>4 + 8 + 4 + 10\<close> of the weights along that path.
\<close>

theorem C1_dijkstra_grafo2:
  "camino_de dijkstra_grafo2 = Some [0, 1, 2, 5, 4] \<and> dist_de dijkstra_grafo2 4 = Some (Fin 26)"
  by code_simp

section \<open>Claim C2: the edge that Prim records\<close>

text \<open>
  C2 says that the edge \<open>(padre[u], u)\<close> appended when \<open>u\<close> is included is the edge whose
  weight was popped, the lightest edge from the included set to \<open>u\<close>. The code
  overwrites \<open>padre[v]\<close> at every push, whatever the weight. On the bundled 7-node
  graph node 3 is included by the heap entry \<open>(7, 3)\<close> pushed from node 2, but the
  recorded edge is \<open>(5, 3)\<close> of weight 14, because node 5 pushed \<open>(14, 3)\<close> later.
  The theorem is the run of the code on that graph.
\<close>

theorem C2_prim_grafo2:
  "prim_grafo2 =
    Inr [\<lparr>mst_paso = [], actual_prim = 0, visitados_prim = [0]\<rparr>,
         \<lparr>mst_paso = [(0, 1)], actual_prim = 1, visitados_prim = [0, 1]\<rparr>,
         \<lparr>mst_paso = [(0, 1), (1, 2)], actual_prim = 2, visitados_prim = [0, 1, 2]\<rparr>,
         \<lparr>mst_paso = [(0, 1), (1, 2), (2, 5)], actual_prim = 5,
            visitados_prim = [0, 1, 2, 5]\<rparr>,
         \<lparr>mst_paso = [(0, 1), (1, 2), (2, 5), (5, 6)], actual_prim = 6,
            visitados_prim = [0, 1, 2, 5, 6]\<rparr>,
         \<lparr>mst_paso = [(0, 1), (1, 2), (2, 5), (5, 6), (5, 3)], actual_prim = 3,
            visitados_prim = [0, 1, 2, 3, 5, 6]\<rparr>,
         \<lparr>mst_paso = [(0, 1), (1, 2), (2, 5), (5, 6), (5, 3), (3, 4)], actual_prim = 4,
            visitados_prim = [0, 1, 2, 3, 4, 5, 6]\<rparr>]
   \<and> celda grafo2_matriz 5 3 = Inr 14 \<and> celda grafo2_matriz 2 3 = Inr 7"
  by code_simp

section \<open>Claim C3: weight of Kruskal's and of Prim's tree\<close>

text \<open>
  C3 says that on a connected graph the weights of the edges accepted by Kruskal and
  the weights of the edges of Prim's final \<open>mst\<close> list have the same sum. On the
  bundled 7-node graph, which is connected, the code gives 34 for Kruskal and 41 for
  Prim, by the defect shown for C2.
\<close>

theorem C3_pesos_grafo2:
  "peso_kruskal kruskal_grafo2 = Some 34 \<and> peso_prim grafo2_matriz prim_grafo2 = Some 41"
  by code_simp

section \<open>Claim C8: what \<open>cargar\<close> checks\<close>

text \<open>
  C8, as stated: \<open>cargar\<close> fails with a ShapeError whenever the number of labels
  differs from the dimension of the matrix. With a 2 x 2 matrix and three labels the
  code builds the graph.
\<close>

theorem C8_counterexample:
  "length [''A'', ''B'', ''C''] \<noteq> length [[0, 1], [1, 0 :: 64 word]]
   \<and> cargar [[0, 1], [1, 0]] [''A'', ''B'', ''C''] ''Prueba'' =
       Inr \<lparr>matriz = [[0, 1], [1, 0]], nombres = [''A'', ''B'', ''C''], N = 2,
            G = [(''A'', ''B'', 1)], nombre_grafo = ''Prueba''\<rparr>"
  by code_simp

text \<open>
  C8, amended: on a matrix of integers within int64, \<open>cargar\<close> validates no shape
  and does not fail with a ShapeError. On every rectangular such matrix with \<open>N\<close> rows,
  at least \<open>N\<close> columns and at least \<open>N\<close> labels it succeeds, also when the matrix is
  not square or when there are more than \<open>N\<close> labels, and the graph it produces has the
  matrix and the labels as given and the number of rows as \<open>N\<close>.
\<close>

theorem C8_cargar_sin_validacion:
  "cargar m noms nom \<noteq> Inl ShapeError \<and>
   (rectangular m \<and> (\<forall>fila \<in> set m. length m \<le> length fila) \<and> length m \<le> length noms
      \<longrightarrow> (\<exists>g. cargar m noms nom =
             Inr \<lparr>matriz = m, nombres = noms, N = length m, G = g, nombre_grafo = nom\<rparr>))"
proof
  show "cargar m noms nom \<noteq> Inl ShapeError"
    by (auto simp: cargar_def split: sum.splits dest: cargar_filas_Inl)
next
  show "rectangular m \<and> (\<forall>fila \<in> set m. length m \<le> length fila) \<and> length m \<le> length noms
      \<longrightarrow> (\<exists>g. cargar m noms nom =
             Inr \<lparr>matriz = m, nombres = noms, N = length m, G = g, nombre_grafo = nom\<rparr>)"
  proof
    assume a: "rectangular m \<and> (\<forall>fila \<in> set m. length m \<le> length fila) \<and> length m \<le> length noms"
    then have "\<exists>g'. cargar_filas m noms (length m) (rango (length m)) [] = Inr g'"
      by (intro cargar_filas_ok) (auto simp: rango_def)
    with a show "\<exists>g. cargar m noms nom =
             Inr \<lparr>matriz = m, nombres = noms, N = length m, G = g, nombre_grafo = nom\<rparr>"
      by (auto simp: cargar_def)
  qed
qed


theorem C8_cargar_sin_validacion_witness:
  "rectangular [[0, 1, 5], [1, 0, 5 :: 64 word]]
   \<and> list_all (\<lambda>fila. length [[0, 1, 5], [1, 0, 5 :: 64 word]] \<le> length fila)
         [[0, 1, 5], [1, 0, 5 :: 64 word]]
   \<and> length [[0, 1, 5], [1, 0, 5 :: 64 word]] \<le> length [''A'', ''B'']
   \<and> (\<exists>g. cargar [[0, 1, 5], [1, 0, 5]] [''A'', ''B''] ''Prueba'' =
         Inr \<lparr>matriz = [[0, 1, 5], [1, 0, 5]], nombres = [''A'', ''B''], N = 2, G = g,
              nombre_grafo = ''Prueba''\<rparr>)"
proof -
  have h: "rectangular [[0, 1, 5], [1, 0, 5 :: 64 word]]
      \<and> (\<forall>fila \<in> set [[0, 1, 5], [1, 0, 5 :: 64 word]]. length [[0, 1, 5], [1, 0, 5 :: 64 word]] \<le> length fila)
      \<and> length [[0, 1, 5], [1, 0, 5 :: 64 word]] \<le> length [''A'', ''B'']"
    by (simp add: rectangular_def)
  with C8_cargar_sin_validacion [of "[[0, 1, 5], [1, 0, 5]]" "[''A'', ''B'']" "''Prueba''"]
  show ?thesis by (simp add: numeral_2_eq_2)
qed

section \<open>Claim C9: a start index outside the range\<close>

text \<open>
  C9, as stated: for every start index outside \<open>[0, N)\<close>, each entry point, in particular
  \<open>bfs_pasos\<close>, fails with an IndexError that is detected before any step is produced.
  On the bundled 7-node graph the start index \<open>-1\<close> is outside the range, and
  \<open>bfs_pasos\<close> returns a trace of eight steps: numpy reads row \<open>-1\<close> as the last row.
  With the start index \<open>7\<close> it does fail with an IndexError, but only when it reads the
  row of the matrix: by then the step of node \<open>7\<close> has been appended to \<open>pasos\<close>.
\<close>

theorem C9_counterexample:
  "- 1 \<notin> {0 ..< (7 :: int)}
   \<and> map_sum fst (map actual) (bfs_grafo2 (- 1)) = Inr [- 1, 1, 5, 0, 2, 6, 3, 4]
   \<and> 7 \<notin> {0 ..< (7 :: int)}
   \<and> map_sum (\<lambda>(e, pasos). (e, map actual pasos)) (map actual) (bfs_grafo2 7)
       = Inl (IndexError, [7])"
  by code_simp

text \<open>
  C9, amended: for every loaded graph with \<open>N \<ge> 1\<close> and every start index with
  \<open>start \<ge> N\<close> or \<open>start < -N\<close>, the caller of an entry point receives an exception and
  no steps: \<open>dijkstra_pasos\<close> and \<open>bellman_ford_pasos\<close> fail with an IndexError before any
  step is produced; \<open>bfs_pasos\<close> and \<open>dfs_pasos\<close> (with room for one call of \<open>_dfs\<close>) fail
  with an IndexError after they have appended the step of the start node to their
  list \<open>pasos\<close>. \<open>a_star_pasos\<close> fails with a KeyError, not an IndexError, before any
  step is produced, for every start index outside \<open>[0, N)\<close>. A start index with
  \<open>-N \<le> start < 0\<close> is not rejected by \<open>bfs_pasos\<close>: on a square matrix it returns a
  trace whose first step has \<open>start\<close> as its node.
\<close>

lemma aristas_de_fila_Inl: "aristas_de_fila m i js = Inl e \<Longrightarrow> e = IndexError"
  by (induction js arbitrary: e) (auto split: sum.splits dest: celda_Inl)

lemma aristas_de_filas_Inl: "aristas_de_filas m is = Inl e \<Longrightarrow> e = IndexError"
  by (induction "is" arbitrary: e) (auto split: sum.splits dest: aristas_de_fila_Inl)

theorem C9_indice_de_inicio:
  assumes "cargar m noms nom = Inr ga" and "N ga \<ge> 1"
  shows "(inicio \<ge> int (N ga) \<or> inicio < - int (N ga) \<longrightarrow>
            bfs_pasos ga inicio =
              Inl (IndexError,
                   [\<lparr>actual = inicio, visitados = {inicio}, padre_paso = [inicio \<mapsto> None]\<rparr>])
          \<and> (0 < marcos \<longrightarrow>
                dfs_pasos ga marcos inicio =
                  Inl (IndexError,
                       [\<lparr>actual = inicio, visitados = {inicio}, padre_paso = [inicio \<mapsto> None]\<rparr>]))
          \<and> dijkstra_pasos ga inicio objetivo = Some (Inl (IndexError, []))
          \<and> bellman_ford_pasos ga inicio objetivo = Some (Inl (IndexError, [])))
    \<and> (inicio \<ge> int (N ga) \<or> inicio < 0 \<longrightarrow>
          a_star_pasos fl ga inicio objetivo = Some (Inl (KeyError, [])))
    \<and> (cuadrada m \<and> - int (N ga) \<le> inicio \<and> inicio < 0
         \<longrightarrow> (\<exists>pasos. bfs_pasos ga inicio = Inr pasos \<and> pasos \<noteq> [] \<and> actual (hd pasos) = inicio))"
proof -
  from assms(1) have ga: "matriz ga = m" "N ga = length m"
    using cargar_Inr by blast+
  from assms(2) obtain n where n: "N ga = Suc n"
    by (cases "N ga") auto
  then have r: "rango (N ga) = 0 # map int [1..<Suc n]"
    by (simp add: rango_def upt_rec)
  let ?p0 = "[\<lparr>actual = inicio, visitados = {inicio}, padre_paso = [inicio \<mapsto> None]\<rparr>]"
  have fuera: "bfs_pasos ga inicio = Inl (IndexError, ?p0)
      \<and> (0 < marcos \<longrightarrow> dfs_pasos ga marcos inicio = Inl (IndexError, ?p0))
      \<and> dijkstra_pasos ga inicio objetivo = Some (Inl (IndexError, []))
      \<and> bellman_ford_pasos ga inicio objetivo = Some (Inl (IndexError, []))"
    if f: "inicio \<ge> int (N ga) \<or> inicio < - int (N ga)"
  proof (intro conjI impI)
    from f ga have fila: "py_get (matriz ga) inicio = Inl IndexError"
      by (auto simp: py_get_def)
    then show "bfs_pasos ga inicio = Inl (IndexError, ?p0)"
      unfolding bfs_pasos_def by (subst bfs_bucle.simps) (simp add: r celda_def Let_def)
    show "dfs_pasos ga marcos inicio = Inl (IndexError, ?p0)" if "0 < marcos"
    proof -
      from that obtain k where "marcos = Suc k" by (cases marcos) auto
      with fila show ?thesis
        by (simp add: dfs_pasos_def r celda_def Let_def)
    qed
    from f have d: "py_set (replicate (N ga) Infinito) inicio (Fin 0) = Inl IndexError"
      by (auto simp: py_set_def)
    then show "dijkstra_pasos ga inicio objetivo = Some (Inl (IndexError, []))"
      by (simp add: dijkstra_pasos_def)
    have "bf_principal ga inicio = Inl (IndexError, [])"
    proof (cases "matriz_a_aristas (matriz ga)")
      case (Inl e)
      then have "e = IndexError"
        unfolding matriz_a_aristas_def by (rule aristas_de_filas_Inl)
      with Inl show ?thesis by (simp add: bf_principal_def)
    next
      case (Inr grafo)
      with d show ?thesis by (simp add: bf_principal_def)
    qed
    then show "bellman_ford_pasos ga inicio objetivo = Some (Inl (IndexError, []))"
      by (simp add: bellman_ford_pasos_def)
  qed
  have estrella: "a_star_pasos fl ga inicio objetivo = Some (Inl (KeyError, []))"
    if "inicio \<ge> int (N ga) \<or> inicio < 0"
  proof -
    from that have "generar_coords (N ga) inicio = None"
      by (auto simp: generar_coords_eq)
    then have "h fl (generar_coords (N ga)) inicio objetivo = Inl KeyError"
      by (simp add: h_def split: option.splits)
    then show ?thesis
      by (simp add: a_star_pasos_def Let_def)
  qed
  have dentro: "\<exists>pasos. bfs_pasos ga inicio = Inr pasos \<and> pasos \<noteq> [] \<and> actual (hd pasos) = inicio"
    if c: "cuadrada m" and lo: "- int (N ga) \<le> inicio" and hi: "inicio < 0"
  proof -
    have filas: "\<forall>fila \<in> set (matriz ga). int (length (matriz ga)) \<le> int (length fila)"
      using c ga by (simp add: cuadrada_def)
    have u: "inicio \<in> filas_validas (matriz ga)"
      using lo hi ga by (simp add: filas_validas_def)
    have rg: "\<forall>v \<in> set (rango (N ga)). 0 \<le> v \<and> v < int (length (matriz ga))"
      using ga by (auto simp: rango_def)
    from bfs_vecinos_ok [OF u filas rg, of "{inicio}" "[inicio \<mapsto> None]" "[]"]
    obtain padre2 cola2 where
      a: "bfs_vecinos (matriz ga) inicio (rango (N ga)) {inicio} ([inicio \<mapsto> None], []) = Inr (padre2, cola2)" and
      b: "set cola2 \<subseteq> set [] \<union> set (rango (N ga))"
      by blast
    have "set (rango (N ga)) \<subseteq> filas_validas (matriz ga)"
      using ga by (auto simp: rango_def filas_validas_def)
    with b have "set cola2 \<subseteq> filas_validas (matriz ga)" by auto
    from bfs_bucle_ok [OF filas _ this, of "{inicio}" padre2 ?p0] ga
    obtain res where res: "bfs_bucle ga {inicio} cola2 padre2 ?p0 = Inr res" by auto
    from bfs_bucle_prefijo [OF res] obtain ext where "res = ?p0 @ ext" ..
    with res a show ?thesis
      unfolding bfs_pasos_def by (subst bfs_bucle.simps) (simp add: Let_def)
  qed
  from fuera estrella dentro show ?thesis by blast
qed

theorem C9_indice_de_inicio_witness:
  "cargar [[0, 1], [1, 0]] [''A'', ''B''] ''Prueba'' =
     Inr \<lparr>matriz = [[0, 1], [1, 0]], nombres = [''A'', ''B''], N = 2,
          G = [(''A'', ''B'', 1)], nombre_grafo = ''Prueba''\<rparr>
   \<and> bfs_pasos \<lparr>matriz = [[0, 1], [1, 0]], nombres = [''A'', ''B''], N = 2,
          G = [(''A'', ''B'', 1)], nombre_grafo = ''Prueba''\<rparr> 2
       = Inl (IndexError, [\<lparr>actual = 2, visitados = {2}, padre_paso = [2 \<mapsto> None]\<rparr>])
   \<and> dfs_pasos \<lparr>matriz = [[0, 1], [1, 0]], nombres = [''A'', ''B''], N = 2,
          G = [(''A'', ''B'', 1)], nombre_grafo = ''Prueba''\<rparr> 1000 2
       = Inl (IndexError, [\<lparr>actual = 2, visitados = {2}, padre_paso = [2 \<mapsto> None]\<rparr>])
   \<and> dijkstra_pasos \<lparr>matriz = [[0, 1], [1, 0]], nombres = [''A'', ''B''], N = 2,
          G = [(''A'', ''B'', 1)], nombre_grafo = ''Prueba''\<rparr> 2 0 = Some (Inl (IndexError, []))
   \<and> bellman_ford_pasos \<lparr>matriz = [[0, 1], [1, 0]], nombres = [''A'', ''B''], N = 2,
          G = [(''A'', ''B'', 1)], nombre_grafo = ''Prueba''\<rparr> 2 0 = Some (Inl (IndexError, []))
   \<and> a_star_pasos exacto \<lparr>matriz = [[0, 1], [1, 0]], nombres = [''A'', ''B''], N = 2,
          G = [(''A'', ''B'', 1)], nombre_grafo = ''Prueba''\<rparr> 2 0 = Some (Inl (KeyError, []))
   \<and> cuadrada [[0, 1], [1, 0]]
   \<and> (\<exists>pasos. bfs_pasos \<lparr>matriz = [[0, 1], [1, 0]], nombres = [''A'', ''B''], N = 2,
          G = [(''A'', ''B'', 1)], nombre_grafo = ''Prueba''\<rparr> (- 1) = Inr pasos
         \<and> pasos \<noteq> [] \<and> actual (hd pasos) = - 1)"
proof -
  let ?ga = "\<lparr>matriz = [[0, 1], [1, 0]], nombres = [''A'', ''B''], N = 2,
          G = [(''A'', ''B'', 1)], nombre_grafo = ''Prueba''\<rparr>"
  have h1: "cargar [[0, 1], [1, 0]] [''A'', ''B''] ''Prueba'' = Inr ?ga"
    by code_simp
  have h2: "N ?ga \<ge> 1"
    by simp
  have h3: "cuadrada [[0, 1], [1, 0]]"
    by (simp add: cuadrada_def)
  from C9_indice_de_inicio [OF h1 h2, of 2 1000 0 exacto]
    C9_indice_de_inicio [OF h1 h2, of "- 1" 1000 0 exacto] h1 h3
  show ?thesis by simp
qed

section \<open>Claim C5: the steps of Bellman-Ford\<close>









text \<open>
  With a negative weight the parents can form a cycle, and then the path
  reconstruction that follows the main loop does not end: on the two nodes joined by
  an edge of weight \<open>-1\<close> each node becomes the parent of the other.
\<close>

lemma reconstruir_ciclo:
  assumes "reconstruir p n camino = Some c"
  shows "p 0 = Some (Some 1) \<longrightarrow> p 1 = Some (Some 0) \<longrightarrow> n \<noteq> Some 0 \<and> n \<noteq> Some 1"
proof (rule reconstruir.raw_induct [OF _ assms], intro impI conjI notI)
  fix rec p n camino c
  assume ih: "\<And>p n camino c. rec p n camino = Some c
      \<Longrightarrow> p 0 = Some (Some 1) \<longrightarrow> p 1 = Some (Some 0) \<longrightarrow> n \<noteq> Some 0 \<and> n \<noteq> Some 1"
    and b: "(case n of None \<Rightarrow> Some camino
      | Some k \<Rightarrow> (case p k of None \<Rightarrow> Some camino | Some n' \<Rightarrow> rec p n' (camino @ [k]))) = Some c"
    and p: "p 0 = Some (Some 1)" "p 1 = Some (Some 0)"
  {
    assume "n = Some 0"
    with b p have "rec p (Some 1) (camino @ [0]) = Some c" by simp
    from ih [OF this] p show False by simp
  }
  {
    assume "n = Some 1"
    with b p have "rec p (Some 0) (camino @ [1]) = Some c" by simp
    from ih [OF this] p show False by simp
  }
qed

lemma bellman_ford_sin_retorno:
  "bellman_ford_pasos \<lparr>matriz = [[0, - 1], [- 1, 0]], nombres = [''A'', ''B''], N = 2,
       G = [], nombre_grafo = ''Prueba''\<rparr> 0 1 = None"
proof -
  let ?ga = "\<lparr>matriz = [[0, - 1], [- 1, 0]], nombres = [''A'', ''B''], N = 2,
       G = [], nombre_grafo = ''Prueba''\<rparr>"
  have "map_sum fst (\<lambda>(d, p, ps). (p 0, p 1)) (bf_principal ?ga 0)
      = Inr (Some (Some 1), Some (Some 0))"
    by code_simp
  then obtain dists padre pasos where
    b: "bf_principal ?ga 0 = Inr (dists, padre, pasos)" and
    p: "padre 0 = Some (Some 1)" "padre 1 = Some (Some 0)"
    by (cases "bf_principal ?ga 0") auto
  have "reconstruir padre (Some 1) [] = None"
    using reconstruir_ciclo [of padre "Some 1" "[]"] p
    by (cases "reconstruir padre (Some 1) []") auto
  with b show ?thesis
    by (simp add: bellman_ford_pasos_def)
qed



section \<open>Claim C6: the parent of a node in BFS\<close>

text \<open>
  C6: in every run of \<open>bfs_pasos\<close>, for every node \<open>v\<close> other than the start that has an
  entry in the \<open>'padre'\<close> map of a step, that entry is the node from which \<open>v\<close> was
  first enqueued, whatever enqueued it again later; and an entry of a step's map is
  the same in every later step.
\<close>

theorem C6_bfs_padre:
  assumes "bfs_pasos ga inicio = Inr pasos"
  shows "\<exists>hist. bfs_pasos_h ga inicio = Inr (pasos, hist)
     \<and> (\<forall>s \<in> set pasos. \<forall>v p. v \<noteq> inicio \<and> padre_paso s v = Some p
            \<longrightarrow> (\<exists>u. p = Some u \<and> primer_encolado hist v = Some u))
     \<and> (\<forall>i j v p. i \<le> j \<and> j < length pasos \<and> padre_paso (pasos ! i) v = Some p
            \<longrightarrow> padre_paso (pasos ! j) v = Some p)"
proof -
  have "map_sum (\<lambda>e. e) fst (bfs_pasos_h ga inicio) = bfs_pasos ga inicio"
    unfolding bfs_pasos_h_def bfs_pasos_def by (rule bfs_bucle_h_borrar)
  with assms obtain hist where h: "bfs_pasos_h ga inicio = Inr (pasos, hist)"
    by (cases "bfs_pasos_h ga inicio") auto
  have ini: "padres_segun inicio [inicio \<mapsto> None] []"
    by (simp add: padres_segun_def primer_encolado_def)
  from bfs_bucle_h_padres [OF h [unfolded bfs_pasos_h_def] ini]
  have snap: "\<forall>s \<in> set pasos. \<exists>h0 e0. hist = h0 @ e0 \<and> padres_segun inicio (padre_paso s) h0"
    and ord: "sorted_wrt (\<lambda>a b. padre_paso a \<subseteq>\<^sub>m padre_paso b) pasos"
    by auto
  have primero: "\<exists>u. p = Some u \<and> primer_encolado hist v = Some u"
    if "s \<in> set pasos" "v \<noteq> inicio" "padre_paso s v = Some p" for s v p
  proof -
    from snap that(1) obtain h0 e0 where
      e: "hist = h0 @ e0" "padres_segun inicio (padre_paso s) h0" by blast
    from e(2) that(2) have "padre_paso s v = map_option Some (primer_encolado h0 v)"
      unfolding padres_segun_def by blast
    with that(3) obtain u where "primer_encolado h0 v = Some u" "p = Some u"
      by (cases "primer_encolado h0 v") auto
    with e(1) show ?thesis
      by (auto intro: primer_encolado_append)
  qed
  have estable: "padre_paso (pasos ! j) v = Some p"
    if "i \<le> j" "j < length pasos" "padre_paso (pasos ! i) v = Some p" for i j v p
  proof (cases "i = j")
    case True
    with that show ?thesis by simp
  next
    case False
    with that have "i < j" by simp
    with ord that(2) have "padre_paso (pasos ! i) \<subseteq>\<^sub>m padre_paso (pasos ! j)"
      by (simp add: sorted_wrt_iff_nth_less)
    with that(3) show ?thesis
      by (auto simp: map_le_def dom_def)
  qed
  from h primero estable show ?thesis by blast
qed

theorem C6_bfs_padre_witness:
  "\<exists>pasos hist.
     bfs_pasos \<lparr>matriz = [[0, 1, 1], [1, 0, 1], [1, 1, 0]], nombres = [''A'', ''B'', ''C''],
                 N = 3, G = [(''A'', ''B'', 1), (''A'', ''C'', 1), (''B'', ''C'', 1)],
                 nombre_grafo = ''Prueba''\<rparr> 0 = Inr pasos
     \<and> map actual pasos = [0, 1, 2]
     \<and> hist = [(0, 1), (0, 2), (1, 2)]
     \<and> primer_encolado hist 2 = Some 0
     \<and> bfs_pasos_h \<lparr>matriz = [[0, 1, 1], [1, 0, 1], [1, 1, 0]], nombres = [''A'', ''B'', ''C''],
                 N = 3, G = [(''A'', ''B'', 1), (''A'', ''C'', 1), (''B'', ''C'', 1)],
                 nombre_grafo = ''Prueba''\<rparr> 0 = Inr (pasos, hist)
     \<and> (\<forall>s \<in> set pasos. \<forall>v p. v \<noteq> 0 \<and> padre_paso s v = Some p
            \<longrightarrow> (\<exists>u. p = Some u \<and> primer_encolado hist v = Some u))
     \<and> (\<forall>i j v p. i \<le> j \<and> j < length pasos \<and> padre_paso (pasos ! i) v = Some p
            \<longrightarrow> padre_paso (pasos ! j) v = Some p)"
proof -
  let ?ga = "\<lparr>matriz = [[0, 1, 1], [1, 0, 1], [1, 1, 0]], nombres = [''A'', ''B'', ''C''],
              N = 3, G = [(''A'', ''B'', 1), (''A'', ''C'', 1), (''B'', ''C'', 1)],
              nombre_grafo = ''Prueba''\<rparr>"
  have h: "map_sum fst (\<lambda>(ps, hist). (map actual ps, hist)) (bfs_pasos_h ?ga 0)
      = Inr ([0, 1, 2], [(0, 1), (0, 2), (1, 2)])"
    by code_simp
  have p: "primer_encolado [(0, 1), (0, 2), (1, 2)] 2 = Some 0"
    by code_simp
  from h obtain pasos where
    e: "bfs_pasos_h ?ga 0 = Inr (pasos, [(0, 1), (0, 2), (1, 2)])" "map actual pasos = [0, 1, 2]"
    by (cases "bfs_pasos_h ?ga 0") auto
  have "map_sum (\<lambda>e. e) fst (bfs_pasos_h ?ga 0) = bfs_pasos ?ga 0"
    unfolding bfs_pasos_h_def bfs_pasos_def by (rule bfs_bucle_h_borrar)
  with e(1) have b: "bfs_pasos ?ga 0 = Inr pasos"
    by simp
  from C6_bfs_padre [OF b] obtain hist where
    c: "bfs_pasos_h ?ga 0 = Inr (pasos, hist)"
       "\<forall>s \<in> set pasos. \<forall>v p. v \<noteq> 0 \<and> padre_paso s v = Some p
            \<longrightarrow> (\<exists>u. p = Some u \<and> primer_encolado hist v = Some u)"
       "\<forall>i j v p. i \<le> j \<and> j < length pasos \<and> padre_paso (pasos ! i) v = Some p
            \<longrightarrow> padre_paso (pasos ! j) v = Some p"
    by blast
  from c(1) e(1) have hh: "hist = [(0, 1), (0, 2), (1, 2)]"
    by simp
  have p': "primer_encolado hist 2 = Some 0"
    unfolding hh by (rule p)
  show ?thesis
    apply (rule exI [of _ pasos])
    apply (rule exI [of _ hist])
    apply (intro conjI)
          apply (rule b)
         apply (rule e(2))
        apply (rule hh)
       apply (rule p')
      apply (rule c(1))
     apply (rule c(2))
    apply (rule c(3))
    done
qed

section \<open>Claim C10: \<open>cargar_desde_json\<close> always returns one of two shapes\<close>

text \<open>
  C10: for every outcome of reading and decoding the file, \<open>cargar_desde_json\<close> returns
  either \<open>(matriz, nombres, None)\<close> with both values present, or
  \<open>(None, None, message)\<close>; it returns the second shape with the fixed messages for a
  missing file, for invalid JSON, for a document with neither key and for a matrix
  that is not square, and with \<open>str(e)\<close> for any other exception; a result is never
  returned together with a message. The function of the model has no exception as a
  result: every \<open>raise\<close> of the body ends in the handler.
\<close>

theorem C10_cargar_desde_json_total:
  "((\<exists>m noms. cargar_desde_json py lec = (m, noms, None) \<and> m \<noteq> JNull \<and> noms \<noteq> JNull)
      \<or> (\<exists>msg. cargar_desde_json py lec = (JNull, JNull, Some msg)))
   \<and> cargar_desde_json py (Falla FileNotFoundError) = (JNull, JNull, Some ''Archivo no encontrado'')
   \<and> cargar_desde_json py (Falla JSONDecodeError)
        = (JNull, JNull, Some (''JSON inv'' @ [CHR 0xC3, CHR 0xA1] @ ''lido''))
   \<and> (contiene ''matriz'' data = Inr False \<and> contiene ''aristas'' data = Inr False
        \<longrightarrow> (\<exists>msg. cargar_desde_json py (Datos data) = (JNull, JNull, Some msg)))
   \<and> (indice_clave data ''matriz'' = Inr m0 \<and> py_len m0 = Inr n \<and> iterar m0 = Inr filas
        \<and> filas_cuadradas filas n = Inr False
        \<longrightarrow> cargar_desde_json py (Datos data) = (JNull, JNull, Some ''La matriz no es cuadrada''))"
proof (intro conjI impI)
  show "(\<exists>m noms. cargar_desde_json py lec = (m, noms, None) \<and> m \<noteq> JNull \<and> noms \<noteq> JNull)
      \<or> (\<exists>msg. cargar_desde_json py lec = (JNull, JNull, Some msg))"
  proof (cases lec)
    case (Falla e)
    with manejar_bien_formado [of py e] show ?thesis
      by (simp add: cargar_desde_json_def)
  next
    case (Datos data)
    show ?thesis
    proof (cases "cuerpo_json py data")
      case (Inl e)
      with Datos manejar_bien_formado [of py e] show ?thesis
        by (simp add: cargar_desde_json_def)
    next
      case (Inr r)
      obtain m noms msg where r: "r = (m, noms, msg)" by (cases r) auto
      from cuerpo_json_bien_formado [OF Inr] r Inr Datos show ?thesis
        by (cases msg) (auto simp: cargar_desde_json_def bien_formado_def)
    qed
  qed
next
  show "cargar_desde_json py (Falla FileNotFoundError) = (JNull, JNull, Some ''Archivo no encontrado'')"
    by (simp add: cargar_desde_json_def manejar_def)
next
  show "cargar_desde_json py (Falla JSONDecodeError)
        = (JNull, JNull, Some (''JSON inv'' @ [CHR 0xC3, CHR 0xA1] @ ''lido''))"
    by (simp add: cargar_desde_json_def manejar_def)
next
  assume "contiene ''matriz'' data = Inr False \<and> contiene ''aristas'' data = Inr False"
  then show "\<exists>msg. cargar_desde_json py (Datos data) = (JNull, JNull, Some msg)"
    by (simp add: cargar_desde_json_def cuerpo_json_def)
next
  assume a: "indice_clave data ''matriz'' = Inr m0 \<and> py_len m0 = Inr n \<and> iterar m0 = Inr filas
        \<and> filas_cuadradas filas n = Inr False"
  then have "contiene ''matriz'' data = Inr True"
    by (cases data) (auto split: option.splits)
  with a show "cargar_desde_json py (Datos data) = (JNull, JNull, Some ''La matriz no es cuadrada'')"
    by (simp add: cargar_desde_json_def cuerpo_json_def formato_matriz_def)
qed

theorem C10_cargar_desde_json_total_witness:
  "cargar_desde_json python_ejemplo
      (Datos (JObj [(''matriz'', JList [JList [JInt 0, JInt 1], JList [JInt 2, JInt 0]])]))
     = (JList [JList [JInt 0, JInt 2], JList [JInt 2, JInt 0]], JList [JStr ''A'', JStr ''B''], None)
   \<and> cargar_desde_json python_ejemplo
      (Datos (JObj [(''aristas'', JList [JObj [(''origen'', JStr ''B''), (''destino'', JStr ''A''),
                                               (''peso'', JInt 5)]])]))
     = (JList [JList [JInt 0, JInt 5], JList [JInt 5, JInt 0]], JList [JStr ''A'', JStr ''B''], None)
   \<and> contiene ''matriz'' (JObj [(''grafo'', JNull)]) = Inr False
   \<and> contiene ''aristas'' (JObj [(''grafo'', JNull)]) = Inr False
   \<and> (\<exists>msg. cargar_desde_json python_ejemplo (Datos (JObj [(''grafo'', JNull)]))
          = (JNull, JNull, Some msg))
   \<and> filas_cuadradas [JList [JInt 0], JList []] 2 = Inr False
   \<and> cargar_desde_json python_ejemplo
        (Datos (JObj [(''matriz'', JList [JList [JInt 0], JList []])]))
       = (JNull, JNull, Some ''La matriz no es cuadrada'')
   \<and> cargar_desde_json python_ejemplo (Datos (JInt 7)) = (JNull, JNull, Some ''error'')"
proof -
  let ?d1 = "JObj [(''grafo'', JNull)]"
  let ?d2 = "JObj [(''matriz'', JList [JList [JInt 0], JList []])]"
  have a: "cargar_desde_json python_ejemplo
      (Datos (JObj [(''matriz'', JList [JList [JInt 0, JInt 1], JList [JInt 2, JInt 0]])]))
     = (JList [JList [JInt 0, JInt 2], JList [JInt 2, JInt 0]], JList [JStr ''A'', JStr ''B''], None)"
    by code_simp
  have b: "cargar_desde_json python_ejemplo
      (Datos (JObj [(''aristas'', JList [JObj [(''origen'', JStr ''B''), (''destino'', JStr ''A''),
                                               (''peso'', JInt 5)]])]))
     = (JList [JList [JInt 0, JInt 5], JList [JInt 5, JInt 0]], JList [JStr ''A'', JStr ''B''], None)"
    by code_simp
  have c: "contiene ''matriz'' ?d1 = Inr False \<and> contiene ''aristas'' ?d1 = Inr False"
    by code_simp
  have d: "indice_clave ?d2 ''matriz'' = Inr (JList [JList [JInt 0], JList []])
      \<and> py_len (JList [JList [JInt 0], JList []]) = Inr 2
      \<and> iterar (JList [JList [JInt 0], JList []]) = Inr [JList [JInt 0], JList []]
      \<and> filas_cuadradas [JList [JInt 0], JList []] 2 = Inr False"
    by code_simp
  have e: "cargar_desde_json python_ejemplo (Datos (JInt 7)) = (JNull, JNull, Some ''error'')"
    by code_simp
  note t1 = C10_cargar_desde_json_total [of python_ejemplo "Datos ?d1" ?d1]
  note t2 = C10_cargar_desde_json_total [of python_ejemplo "Datos ?d2" ?d2
      "JList [JList [JInt 0], JList []]" 2 "[JList [JInt 0], JList []]"]
  note k1 = t1 [THEN conjunct2, THEN conjunct2, THEN conjunct2, THEN conjunct1, THEN mp, OF c]
  note k2 = t2 [THEN conjunct2, THEN conjunct2, THEN conjunct2, THEN conjunct2, THEN mp, OF d]
  show ?thesis
    apply (intro conjI)
           apply (rule a)
          apply (rule b)
         apply (rule c [THEN conjunct1])
        apply (rule c [THEN conjunct2])
       apply (rule k1)
      apply (rule d [THEN conjunct2, THEN conjunct2, THEN conjunct2])
     apply (rule k2)
    apply (rule e)
    done
qed

end
